theory Spec2Isabelle
  imports Complex_Main "HOL-Library.AList"
begin

section \<open>Numbers\<close>

text \<open>
  The optimizer of \<^verbatim>\<open>ml_models/inventory_optimization.py\<close> computes with
  binary64 numbers (Python's \<^verbatim>\<open>float\<close>, NumPy's \<^verbatim>\<open>float64\<close>). A
  number is a finite value, one of the two zeros, one of the two infinities, or
  not-a-number: \<open>Fin 0\<close> is the positive zero, \<open>NegZero\<close> the negative one. Every
  operation computes the exact real result and rounds it to the nearest binary64 number,
  ties to even (IEEE 754, the default rounding mode): a result too large becomes an
  infinity, a result too small a subnormal number or a zero.
\<close>

datatype fval = Fin real | NegZero | PInf | NInf | NaN

text \<open>
  Rounding. The binade of \<open>x\<close> is the exponent of its leading bit, not below that of
  the subnormal numbers; a binary64 number near \<open>x\<close> is a multiple of \<open>ulp x\<close>, 52 bits
  below. \<open>rne\<close> rounds to the nearest integer, a tie to the even one. \<open>round64\<close> is
  rounding with an unbounded exponent; a result of magnitude \<open>2 ^ 1024\<close> or more
  overflows.
\<close>

definition binade :: "real \<Rightarrow> int" where
  "binade x = max \<lfloor>log 2 \<bar>x\<bar>\<rfloor> (- 1022)"

definition ulp :: "real \<Rightarrow> real" where
  "ulp x = 2 powr (of_int (binade x) - 52)"

definition rne :: "real \<Rightarrow> int" where
  "rne q = (let f = \<lfloor>q\<rfloor>; r = q - of_int f
            in if r < 1 / 2 then f else if 1 / 2 < r then f + 1
               else if even f then f else f + 1)"

definition round64 :: "real \<Rightarrow> real" where
  "round64 x = of_int (rne (x / ulp x)) * ulp x"

definition signed_zero :: "bool \<Rightarrow> fval" where
  "signed_zero neg = (if neg then NegZero else Fin 0)"

definition signed_inf :: "bool \<Rightarrow> fval" where
  "signed_inf neg = (if neg then NInf else PInf)"

text \<open>
  The binary64 number for the exact result \<open>x\<close>; \<open>neg\<close> is the sign of the result,
  which a zero and an infinity keep.
\<close>

definition rounded :: "bool \<Rightarrow> real \<Rightarrow> fval" where
  "rounded neg x =
     (let y = round64 x
      in if 2 ^ 1024 \<le> \<bar>y\<bar> then signed_inf neg
         else if y = 0 then signed_zero neg
         else Fin y)"

text \<open>A decimal literal of the source denotes the binary64 number nearest to it.\<close>

definition double :: "real \<Rightarrow> fval" where
  "double x = rounded (x < 0) x"

fun rval :: "fval \<Rightarrow> real" where
  "rval (Fin a) = a"
| "rval NegZero = 0"
| "rval PInf = 0"
| "rval NInf = 0"
| "rval NaN = 0"

fun negative :: "fval \<Rightarrow> bool" where
  "negative (Fin a) = (a < 0)"
| "negative NegZero = True"
| "negative PInf = False"
| "negative NInf = True"
| "negative NaN = False"

fun is_zero :: "fval \<Rightarrow> bool" where
  "is_zero (Fin a) = (a = 0)"
| "is_zero NegZero = True"
| "is_zero PInf = False"
| "is_zero NInf = False"
| "is_zero NaN = False"

fun is_inf :: "fval \<Rightarrow> bool" where
  "is_inf PInf = True"
| "is_inf NInf = True"
| "is_inf (Fin a) = False"
| "is_inf NegZero = False"
| "is_inf NaN = False"

fun is_finite :: "fval \<Rightarrow> bool" where
  "is_finite (Fin a) = True"
| "is_finite NegZero = True"
| "is_finite PInf = False"
| "is_finite NInf = False"
| "is_finite NaN = False"

fun fneg :: "fval \<Rightarrow> fval" where
  "fneg (Fin a) = (if a = 0 then NegZero else Fin (- a))"
| "fneg NegZero = Fin 0"
| "fneg PInf = NInf"
| "fneg NInf = PInf"
| "fneg NaN = NaN"

text \<open>
  Sums: opposite infinities give not-a-number; an exact sum of zero is the positive zero
  unless both operands are negative.
\<close>

definition fadd :: "fval \<Rightarrow> fval \<Rightarrow> fval" where
  "fadd a b =
     (if a = NaN \<or> b = NaN then NaN
      else if is_inf a then (if is_inf b \<and> a \<noteq> b then NaN else a)
      else if is_inf b then b
      else if rval a + rval b = 0 then signed_zero (negative a \<and> negative b)
      else rounded (rval a + rval b < 0) (rval a + rval b))"

definition fsub :: "fval \<Rightarrow> fval \<Rightarrow> fval" where
  "fsub a b = fadd a (fneg b)"

text \<open>
  Products and quotients: the sign of the result is negative when the signs of the
  operands differ; infinity times zero, infinity over infinity and zero over zero give
  not-a-number; a non-zero number over a zero gives an infinity.
\<close>

definition fmul :: "fval \<Rightarrow> fval \<Rightarrow> fval" where
  "fmul a b =
     (if a = NaN \<or> b = NaN then NaN
      else if is_inf a \<or> is_inf b then
        (if is_zero a \<or> is_zero b then NaN else signed_inf (negative a \<noteq> negative b))
      else rounded (negative a \<noteq> negative b) (rval a * rval b))"

definition fdiv :: "fval \<Rightarrow> fval \<Rightarrow> fval" where
  "fdiv a b =
     (if a = NaN \<or> b = NaN then NaN
      else if is_inf a then (if is_inf b then NaN else signed_inf (negative a \<noteq> negative b))
      else if is_inf b then signed_zero (negative a \<noteq> negative b)
      else if is_zero b then (if is_zero a then NaN else signed_inf (negative a \<noteq> negative b))
      else rounded (negative a \<noteq> negative b) (rval a / rval b))"

fun fsqrt :: "fval \<Rightarrow> fval" where
  "fsqrt (Fin a) = (if a < 0 then NaN else Fin (round64 (sqrt a)))"
| "fsqrt NegZero = NegZero"
| "fsqrt PInf = PInf"
| "fsqrt NInf = NaN"
| "fsqrt NaN = NaN"

text \<open>
  The comparisons \<^verbatim>\<open><=\<close> and \<^verbatim>\<open><\<close> of two numbers: false when one of them is
  not-a-number; the two zeros are equal.
\<close>

definition fle :: "fval \<Rightarrow> fval \<Rightarrow> bool" where
  "fle a b =
     (a \<noteq> NaN \<and> b \<noteq> NaN \<and>
      (a = NInf \<or> b = PInf \<or> (is_finite a \<and> is_finite b \<and> rval a \<le> rval b)))"


text \<open>
  Python decides the meaning of an arithmetic operator by the run-time types of its
  operands. A scalar is a Python number (\<open>Py\<close>: a \<^verbatim>\<open>float\<close>, or an
  \<^verbatim>\<open>int\<close> read by its value) or a NumPy \<^verbatim>\<open>float64\<close> (\<open>Np\<close>). A
  product, sum or quotient of two Python numbers is a Python number; with a NumPy
  operand it is a NumPy number. The two differ at a zero divisor only: Python raises
  \<^verbatim>\<open>ZeroDivisionError\<close>, NumPy returns an infinity or not-a-number (and warns).
\<close>

datatype scalar = Py fval | Np fval

datatype py_error = KeyError string | TypeError | ZeroDivisionError

fun val :: "scalar \<Rightarrow> fval" where
  "val (Py a) = a"
| "val (Np a) = a"

fun is_py :: "scalar \<Rightarrow> bool" where
  "is_py (Py a) = True"
| "is_py (Np a) = False"

fun smul :: "scalar \<Rightarrow> scalar \<Rightarrow> scalar" where
  "smul (Py a) (Py b) = Py (fmul a b)"
| "smul x y = Np (fmul (val x) (val y))"

fun sadd :: "scalar \<Rightarrow> scalar \<Rightarrow> scalar" where
  "sadd (Py a) (Py b) = Py (fadd a b)"
| "sadd x y = Np (fadd (val x) (val y))"

fun sdiv :: "scalar \<Rightarrow> scalar \<Rightarrow> py_error + scalar" where
  "sdiv (Py a) (Py b) = (if is_zero b then Inl ZeroDivisionError else Inr (Py (fdiv a b)))"
| "sdiv x y = Inr (Np (fdiv (val x) (val y)))"

text \<open>\<^verbatim>\<open>np.sqrt\<close> of a scalar is a NumPy number; of a negative number it is not-a-number.\<close>

definition np_sqrt :: "scalar \<Rightarrow> scalar" where
  "np_sqrt x = Np (fsqrt (val x))"

text \<open>
  \<^verbatim>\<open>scipy.stats.norm.ppf\<close> is the quantile function of the standard normal
  distribution. Inside the open unit interval it is the inverse \<open>ppf\<close> of the
  distribution function, a parameter of the model; at 0 and at 1 SciPy returns the ends
  of the support, minus and plus infinity; anywhere else it returns not-a-number. It
  never raises, and its result is a NumPy number.
\<close>

definition norm_ppf :: "(real \<Rightarrow> real) \<Rightarrow> scalar \<Rightarrow> scalar" where
  "norm_ppf ppf q =
     Np (case val q of
           Fin p \<Rightarrow>
             if 0 < p \<and> p < 1 then Fin (ppf p)
             else if p = 0 then NInf
             else if p = 1 then PInf
             else NaN
         | NegZero \<Rightarrow> NInf
         | _ \<Rightarrow> NaN)"

section \<open>The optimizer\<close>

text \<open>
  The three attributes \<^verbatim>\<open>__init__\<close> stores; it validates nothing. Of the three
  defaults 0.25 and 0.5 are binary64 numbers; 0.95 is not, and stands for the nearest one.
\<close>

record optimizer =
  holding_cost_rate :: scalar
  stockout_cost_rate :: scalar
  service_level :: scalar

definition init :: "scalar option \<Rightarrow> scalar option \<Rightarrow> scalar option \<Rightarrow> optimizer" where
  "init hcr scr sl =
     \<lparr> holding_cost_rate = (case hcr of None \<Rightarrow> Py (Fin 0.25) | Some x \<Rightarrow> x),
       stockout_cost_rate = (case scr of None \<Rightarrow> Py (Fin 0.5) | Some x \<Rightarrow> x),
       service_level = (case sl of None \<Rightarrow> Py (double 0.95) | Some x \<Rightarrow> x) \<rparr>"

text \<open>
  \<^verbatim>\<open>np.sqrt((2 * demand * ordering_cost) / (self.holding_cost_rate * unit_cost))\<close>:
  the two products, the quotient (the only operation that can raise), the root.
\<close>

definition calculate_economic_order_quantity ::
    "optimizer \<Rightarrow> scalar \<Rightarrow> scalar \<Rightarrow> scalar \<Rightarrow> py_error + scalar" where
  "calculate_economic_order_quantity self demand ordering_cost unit_cost =
     (case sdiv (smul (smul (Py (Fin 2)) demand) ordering_cost)
                (smul (holding_cost_rate self) unit_cost) of
        Inl e \<Rightarrow> Inl e
      | Inr q \<Rightarrow> Inr (np_sqrt q))"

definition calculate_reorder_point ::
    "(real \<Rightarrow> real) \<Rightarrow> optimizer \<Rightarrow> scalar \<Rightarrow> scalar \<Rightarrow> scalar option \<Rightarrow> scalar" where
  "calculate_reorder_point ppf self lead_time_demand lead_time_std service_level_arg =
     (let sl = (case service_level_arg of None \<Rightarrow> service_level self | Some s \<Rightarrow> s);
          z = norm_ppf ppf sl;
          safety_stock = smul z lead_time_std;
          reorder_point = sadd lead_time_demand safety_stock
      in reorder_point)"

section \<open>Data frames\<close>

text \<open>
  A \<^verbatim>\<open>DataFrame\<close> is a number of rows and its columns in order, each under its
  name. A column the optimizer computes with holds numbers (dtype float64); a column
  such as \<^verbatim>\<open>sku_id\<close> holds strings. In a frame every column has as many
  entries as the frame has rows (\<open>wf_frame\<close>).
\<close>

datatype column = NumCol "fval list" | ObjCol "string list"

record frame =
  nrows :: nat
  columns :: "(string \<times> column) list"

fun col_len :: "column \<Rightarrow> nat" where
  "col_len (NumCol xs) = length xs"
| "col_len (ObjCol xs) = length xs"

definition wf_frame :: "frame \<Rightarrow> bool" where
  "wf_frame fr = list_all (\<lambda>(name, c). col_len c = nrows fr) (columns fr)"

text \<open>\<^verbatim>\<open>df[name]\<close> raises \<^verbatim>\<open>KeyError\<close> for a name that is no column.\<close>

definition getitem :: "frame \<Rightarrow> string \<Rightarrow> py_error + column" where
  "getitem fr name =
     (case map_of (columns fr) name of None \<Rightarrow> Inl (KeyError name) | Some c \<Rightarrow> Inr c)"

text \<open>\<^verbatim>\<open>df[name] = c\<close> replaces the column of that name, or appends a new one.\<close>

definition setitem :: "frame \<Rightarrow> string \<Rightarrow> column \<Rightarrow> frame" where
  "setitem fr name c = fr\<lparr>columns := AList.update name c (columns fr)\<rparr>"

text \<open>
  Arithmetic of two columns of one frame works entry by entry, with NumPy's meaning of
  the operators: a zero divisor gives an infinity or not-a-number, never an exception.
  A column of strings in such an operation raises \<^verbatim>\<open>TypeError\<close>.
\<close>

fun col_binop :: "(fval \<Rightarrow> fval \<Rightarrow> fval) \<Rightarrow> column \<Rightarrow> column \<Rightarrow> py_error + column" where
  "col_binop f (NumCol xs) (NumCol ys) = Inr (NumCol (map2 f xs ys))"
| "col_binop f _ _ = Inl TypeError"

fun col_unop :: "(fval \<Rightarrow> fval) \<Rightarrow> column \<Rightarrow> py_error + column" where
  "col_unop f (NumCol xs) = Inr (NumCol (map f xs))"
| "col_unop f (ObjCol xs) = Inl TypeError"

definition col_mul :: "column \<Rightarrow> column \<Rightarrow> py_error + column" where
  "col_mul = col_binop fmul"

definition col_div :: "column \<Rightarrow> column \<Rightarrow> py_error + column" where
  "col_div = col_binop fdiv"

definition col_add :: "column \<Rightarrow> column \<Rightarrow> py_error + column" where
  "col_add = col_binop fadd"

definition col_sub :: "column \<Rightarrow> column \<Rightarrow> py_error + column" where
  "col_sub = col_binop fsub"

definition col_pow2 :: "column \<Rightarrow> py_error + column" where
  "col_pow2 = col_unop (\<lambda>x. fmul x x)"

definition col_sqrt :: "column \<Rightarrow> py_error + column" where
  "col_sqrt = col_unop fsqrt"

definition col_mul_scalar :: "column \<Rightarrow> scalar \<Rightarrow> py_error + column" where
  "col_mul_scalar c s = col_unop (\<lambda>x. fmul x (val s)) c"

text \<open>
  \<^verbatim>\<open>df.apply(f, axis=1)\<close> calls \<open>f\<close> on the rows in order, each row a series
  of the frame's cells under the column names, and collects the results in a new column;
  the first call that raises ends it. What run-time type a numeric cell of a row has
  depends on the dtypes of the frame (a Python \<^verbatim>\<open>float\<close> in the rows of a frame
  that also has string columns, a NumPy \<^verbatim>\<open>float64\<close> in the rows of an
  all-numeric frame): it is the parameter \<open>k\<close>.
\<close>

datatype kind = PyFloat | NpFloat64

fun scalar_of :: "kind \<Rightarrow> fval \<Rightarrow> scalar" where
  "scalar_of PyFloat a = Py a"
| "scalar_of NpFloat64 a = Np a"

datatype cell = NumCell scalar | ObjCell string

fun cell_of :: "kind \<Rightarrow> column \<Rightarrow> nat \<Rightarrow> cell" where
  "cell_of k (NumCol xs) i = NumCell (scalar_of k (xs ! i))"
| "cell_of k (ObjCol xs) i = ObjCell (xs ! i)"

type_synonym series = "(string \<times> cell) list"

definition iloc :: "kind \<Rightarrow> frame \<Rightarrow> nat \<Rightarrow> series" where
  "iloc k fr i = map (\<lambda>(name, c). (name, cell_of k c i)) (columns fr)"

definition series_getitem :: "series \<Rightarrow> string \<Rightarrow> py_error + cell" where
  "series_getitem row name =
     (case map_of row name of None \<Rightarrow> Inl (KeyError name) | Some c \<Rightarrow> Inr c)"

text \<open>Arithmetic with a string cell raises \<^verbatim>\<open>TypeError\<close>.\<close>

fun as_number :: "cell \<Rightarrow> py_error + scalar" where
  "as_number (NumCell s) = Inr s"
| "as_number (ObjCell s) = Inl TypeError"

definition ebind :: "py_error + 'a \<Rightarrow> ('a \<Rightarrow> py_error + 'b) \<Rightarrow> py_error + 'b" where
  "ebind r f = (case r of Inl e \<Rightarrow> Inl e | Inr x \<Rightarrow> f x)"

fun collect :: "(py_error + 'a) list \<Rightarrow> py_error + 'a list" where
  "collect [] = Inr []"
| "collect (r # rs) = ebind r (\<lambda>x. ebind (collect rs) (\<lambda>xs. Inr (x # xs)))"

definition apply_axis1 :: "kind \<Rightarrow> (series \<Rightarrow> py_error + scalar) \<Rightarrow> frame \<Rightarrow> py_error + column" where
  "apply_axis1 k f fr =
     ebind (collect (map (\<lambda>i. f (iloc k fr i)) [0 ..< nrows fr]))
       (\<lambda>rs. Inr (NumCol (map val rs)))"

section \<open>The objects of a run\<close>

text \<open>
  The optimizer object and the data frames live in a store; a frame is known by its
  reference, a position in the store. A statement of the program is a function from the
  store to a result, a value or the exception raised, and the store it leaves.
\<close>

record world =
  self_attrs :: optimizer
  heap :: "frame list"

type_synonym 'a prog = "world \<Rightarrow> (py_error + 'a) \<times> world"

definition ret :: "'a \<Rightarrow> 'a prog" where
  "ret x = (\<lambda>w. (Inr x, w))"

definition lift :: "py_error + 'a \<Rightarrow> 'a prog" where
  "lift r = (\<lambda>w. (r, w))"

definition bnd :: "'a prog \<Rightarrow> ('a \<Rightarrow> 'b prog) \<Rightarrow> 'b prog" where
  "bnd m f = (\<lambda>w. case m w of (Inl e, w') \<Rightarrow> (Inl e, w') | (Inr x, w') \<Rightarrow> f x w')"

definition get_self :: "optimizer prog" where
  "get_self = (\<lambda>w. (Inr (self_attrs w), w))"

text \<open>\<^verbatim>\<open>data.copy()\<close> makes a new frame object with the contents of \<open>data\<close>.\<close>

definition df_copy :: "nat \<Rightarrow> nat prog" where
  "df_copy r = (\<lambda>w. (Inr (length (heap w)), w\<lparr>heap := heap w @ [heap w ! r]\<rparr>))"

definition df_getitem :: "nat \<Rightarrow> string \<Rightarrow> column prog" where
  "df_getitem r name = (\<lambda>w. (getitem (heap w ! r) name, w))"

text \<open>\<^verbatim>\<open>df[name] = c\<close> changes the frame object \<open>df\<close> refers to, in place.\<close>

definition df_setitem :: "nat \<Rightarrow> string \<Rightarrow> column \<Rightarrow> unit prog" where
  "df_setitem r name c =
     (\<lambda>w. (Inr (), w\<lparr>heap := (heap w)[r := setitem (heap w ! r) name c]\<rparr>))"

definition df_apply_axis1 :: "kind \<Rightarrow> nat \<Rightarrow> (series \<Rightarrow> py_error + scalar) \<Rightarrow> column prog" where
  "df_apply_axis1 k r f = (\<lambda>w. (apply_axis1 k f (heap w ! r), w))"

section \<open>optimize\_inventory\_levels\<close>

text \<open>
  The body of \<^verbatim>\<open>optimize_inventory_levels\<close>, one definition per assignment, each
  reading and writing columns of the frame \<open>result\<close> refers to, in the order Python
  evaluates the right-hand side.
\<close>

definition assign_lead_time_demand :: "nat \<Rightarrow> unit prog" where
  "assign_lead_time_demand result =
     bnd (df_getitem result ''demand_mean'') (\<lambda>a.
     bnd (df_getitem result ''lead_time_mean'') (\<lambda>b.
     bnd (lift (col_mul a b)) (\<lambda>c.
     df_setitem result ''lead_time_demand'' c)))"

definition assign_lead_time_demand_std :: "nat \<Rightarrow> unit prog" where
  "assign_lead_time_demand_std result =
     bnd (df_getitem result ''demand_mean'') (\<lambda>a.
     bnd (lift (col_pow2 a)) (\<lambda>a2.
     bnd (df_getitem result ''lead_time_std'') (\<lambda>b.
     bnd (lift (col_pow2 b)) (\<lambda>b2.
     bnd (lift (col_mul a2 b2)) (\<lambda>ab.
     bnd (df_getitem result ''lead_time_mean'') (\<lambda>c.
     bnd (lift (col_pow2 c)) (\<lambda>c2.
     bnd (df_getitem result ''demand_std'') (\<lambda>d.
     bnd (lift (col_pow2 d)) (\<lambda>d2.
     bnd (lift (col_mul c2 d2)) (\<lambda>cd.
     bnd (lift (col_add ab cd)) (\<lambda>s.
     bnd (lift (col_sqrt s)) (\<lambda>r.
     df_setitem result ''lead_time_demand_std'' r))))))))))))"

text \<open>
  The two functions given to \<^verbatim>\<open>apply\<close>: the cells are read from the row, left
  to right, before the method is called with them.
\<close>

definition eoq_of_row :: "optimizer \<Rightarrow> series \<Rightarrow> py_error + scalar" where
  "eoq_of_row self row =
     ebind (series_getitem row ''demand_mean'') (\<lambda>d.
     ebind (series_getitem row ''ordering_cost'') (\<lambda>c.
     ebind (series_getitem row ''unit_cost'') (\<lambda>u.
     ebind (as_number d) (\<lambda>demand.
     ebind (as_number c) (\<lambda>ordering_cost.
     ebind (as_number u) (\<lambda>unit_cost.
     calculate_economic_order_quantity self demand ordering_cost unit_cost))))))"

definition reorder_point_of_row :: "(real \<Rightarrow> real) \<Rightarrow> optimizer \<Rightarrow> series \<Rightarrow> py_error + scalar" where
  "reorder_point_of_row ppf self row =
     ebind (series_getitem row ''lead_time_demand'') (\<lambda>d.
     ebind (series_getitem row ''lead_time_demand_std'') (\<lambda>s.
     ebind (as_number d) (\<lambda>lead_time_demand.
     ebind (as_number s) (\<lambda>lead_time_std.
     Inr (calculate_reorder_point ppf self lead_time_demand lead_time_std None)))))"

definition assign_eoq :: "kind \<Rightarrow> nat \<Rightarrow> unit prog" where
  "assign_eoq k result =
     bnd get_self (\<lambda>self.
     bnd (df_apply_axis1 k result (eoq_of_row self)) (\<lambda>c.
     df_setitem result ''eoq'' c))"

definition assign_reorder_point :: "kind \<Rightarrow> (real \<Rightarrow> real) \<Rightarrow> nat \<Rightarrow> unit prog" where
  "assign_reorder_point k ppf result =
     bnd get_self (\<lambda>self.
     bnd (df_apply_axis1 k result (reorder_point_of_row ppf self)) (\<lambda>c.
     df_setitem result ''reorder_point'' c))"

definition assign_safety_stock :: "nat \<Rightarrow> unit prog" where
  "assign_safety_stock result =
     bnd (df_getitem result ''reorder_point'') (\<lambda>a.
     bnd (df_getitem result ''lead_time_demand'') (\<lambda>b.
     bnd (lift (col_sub a b)) (\<lambda>c.
     df_setitem result ''safety_stock'' c)))"

definition assign_optimal_inventory :: "nat \<Rightarrow> unit prog" where
  "assign_optimal_inventory result =
     bnd (df_getitem result ''eoq'') (\<lambda>a.
     bnd (df_getitem result ''safety_stock'') (\<lambda>b.
     bnd (lift (col_add a b)) (\<lambda>c.
     df_setitem result ''optimal_inventory'' c)))"

definition assign_annual_holding_cost :: "nat \<Rightarrow> unit prog" where
  "assign_annual_holding_cost result =
     bnd (df_getitem result ''optimal_inventory'') (\<lambda>a.
     bnd (df_getitem result ''unit_cost'') (\<lambda>b.
     bnd (lift (col_mul a b)) (\<lambda>ab.
     bnd get_self (\<lambda>self.
     bnd (lift (col_mul_scalar ab (holding_cost_rate self))) (\<lambda>c.
     df_setitem result ''annual_holding_cost'' c)))))"

definition assign_annual_ordering_cost :: "nat \<Rightarrow> unit prog" where
  "assign_annual_ordering_cost result =
     bnd (df_getitem result ''demand_mean'') (\<lambda>a.
     bnd (df_getitem result ''eoq'') (\<lambda>b.
     bnd (lift (col_div a b)) (\<lambda>ab.
     bnd (df_getitem result ''ordering_cost'') (\<lambda>c.
     bnd (lift (col_mul ab c)) (\<lambda>r.
     df_setitem result ''annual_ordering_cost'' r)))))"

definition assign_total_annual_cost :: "nat \<Rightarrow> unit prog" where
  "assign_total_annual_cost result =
     bnd (df_getitem result ''annual_holding_cost'') (\<lambda>a.
     bnd (df_getitem result ''annual_ordering_cost'') (\<lambda>b.
     bnd (lift (col_add a b)) (\<lambda>c.
     df_setitem result ''total_annual_cost'' c)))"

definition optimize_inventory_levels :: "kind \<Rightarrow> (real \<Rightarrow> real) \<Rightarrow> nat \<Rightarrow> nat prog" where
  "optimize_inventory_levels k ppf data =
     bnd (df_copy data) (\<lambda>result.
     bnd (assign_lead_time_demand result) (\<lambda>_.
     bnd (assign_lead_time_demand_std result) (\<lambda>_.
     bnd (assign_eoq k result) (\<lambda>_.
     bnd (assign_reorder_point k ppf result) (\<lambda>_.
     bnd (assign_safety_stock result) (\<lambda>_.
     bnd (assign_optimal_inventory result) (\<lambda>_.
     bnd (assign_annual_holding_cost result) (\<lambda>_.
     bnd (assign_annual_ordering_cost result) (\<lambda>_.
     bnd (assign_total_annual_cost result) (\<lambda>_.
     ret result))))))))))"

section \<open>The rows of a batch\<close>

text \<open>
  The input contract: the six columns the optimizer reads hold numbers, and the frame
  is well formed. \<open>num_col\<close> reads such a column, \<open>items\<close> the rows of a batch.
\<close>

definition has_num :: "frame \<Rightarrow> string \<Rightarrow> fval list \<Rightarrow> bool" where
  "has_num fr name xs = (map_of (columns fr) name = Some (NumCol xs))"

definition num_col :: "frame \<Rightarrow> string \<Rightarrow> fval list" where
  "num_col fr name = (case map_of (columns fr) name of Some (NumCol xs) \<Rightarrow> xs | _ \<Rightarrow> [])"

definition input_names :: "string list" where
  "input_names = [''demand_mean'', ''demand_std'', ''lead_time_mean'', ''lead_time_std'',
                  ''unit_cost'', ''ordering_cost'']"

definition derived_names :: "string list" where
  "derived_names = [''lead_time_demand'', ''lead_time_demand_std'', ''eoq'', ''reorder_point'',
                    ''safety_stock'', ''optimal_inventory'', ''annual_holding_cost'',
                    ''annual_ordering_cost'', ''total_annual_cost'']"

definition numeric_input :: "frame \<Rightarrow> bool" where
  "numeric_input fr =
     (wf_frame fr \<and>
      list_all (\<lambda>name. case map_of (columns fr) name of Some (NumCol xs) \<Rightarrow> True | _ \<Rightarrow> False)
        input_names)"

record item =
  demand_mean :: fval
  demand_std :: fval
  lead_time_mean :: fval
  lead_time_std :: fval
  unit_cost :: fval
  ordering_cost :: fval

definition item_at :: "frame \<Rightarrow> nat \<Rightarrow> item" where
  "item_at fr i =
     \<lparr> demand_mean = num_col fr ''demand_mean'' ! i,
       demand_std = num_col fr ''demand_std'' ! i,
       lead_time_mean = num_col fr ''lead_time_mean'' ! i,
       lead_time_std = num_col fr ''lead_time_std'' ! i,
       unit_cost = num_col fr ''unit_cost'' ! i,
       ordering_cost = num_col fr ''ordering_cost'' ! i \<rparr>"

definition items :: "frame \<Rightarrow> item list" where
  "items fr = map (item_at fr) [0 ..< nrows fr]"

text \<open>
  What the assignments compute in one row, from the cells of that row and the
  attributes of the optimizer, when no call raises; and when the call of
  \<^verbatim>\<open>calculate_economic_order_quantity\<close> for a row raises.
\<close>

record levels =
  lead_time_demand :: fval
  lead_time_demand_std :: fval
  eoq :: fval
  reorder_point :: fval
  safety_stock :: fval
  optimal_inventory :: fval
  annual_holding_cost :: fval
  annual_ordering_cost :: fval
  total_annual_cost :: fval

definition row_levels :: "kind \<Rightarrow> (real \<Rightarrow> real) \<Rightarrow> optimizer \<Rightarrow> item \<Rightarrow> levels" where
  "row_levels k ppf self it =
     (let ltd = fmul (demand_mean it) (lead_time_mean it);
          ltds = fsqrt (fadd (fmul (fmul (demand_mean it) (demand_mean it))
                                   (fmul (lead_time_std it) (lead_time_std it)))
                             (fmul (fmul (lead_time_mean it) (lead_time_mean it))
                                   (fmul (demand_std it) (demand_std it))));
          q = fsqrt (fdiv (fmul (fmul (Fin 2) (demand_mean it)) (ordering_cost it))
                          (fmul (val (holding_cost_rate self)) (unit_cost it)));
          rop = val (calculate_reorder_point ppf self (scalar_of k ltd) (scalar_of k ltds) None);
          ss = fsub rop ltd;
          inv = fadd q ss;
          hold = fmul (fmul inv (unit_cost it)) (val (holding_cost_rate self));
          ord = fmul (fdiv (demand_mean it) q) (ordering_cost it)
      in \<lparr> lead_time_demand = ltd, lead_time_demand_std = ltds, eoq = q,
           reorder_point = rop, safety_stock = ss, optimal_inventory = inv,
           annual_holding_cost = hold, annual_ordering_cost = ord,
           total_annual_cost = fadd hold ord \<rparr>)"

definition row_raises :: "kind \<Rightarrow> optimizer \<Rightarrow> item \<Rightarrow> bool" where
  "row_raises k self it =
     (k = PyFloat \<and> is_py (holding_cost_rate self) \<and>
      is_zero (fmul (val (holding_cost_rate self)) (unit_cost it)))"

definition with_levels :: "frame \<Rightarrow> levels list \<Rightarrow> frame" where
  "with_levels fr ls =
     setitem (setitem (setitem (setitem (setitem (setitem (setitem (setitem (setitem fr
       ''lead_time_demand'' (NumCol (map lead_time_demand ls)))
       ''lead_time_demand_std'' (NumCol (map lead_time_demand_std ls)))
       ''eoq'' (NumCol (map eoq ls)))
       ''reorder_point'' (NumCol (map reorder_point ls)))
       ''safety_stock'' (NumCol (map safety_stock ls)))
       ''optimal_inventory'' (NumCol (map optimal_inventory ls)))
       ''annual_holding_cost'' (NumCol (map annual_holding_cost ls)))
       ''annual_ordering_cost'' (NumCol (map annual_ordering_cost ls)))
       ''total_annual_cost'' (NumCol (map total_annual_cost ls))"

text \<open>
  The comparison \<^verbatim>\<open>abs(a - b) < eps\<close> of two numbers: false when the difference is
  not a finite number, as every comparison with not-a-number is.
\<close>

definition close_to :: "real \<Rightarrow> fval \<Rightarrow> fval \<Rightarrow> bool" where
  "close_to eps a b = (is_finite (fsub a b) \<and> \<bar>rval (fsub a b)\<bar> < eps)"

section \<open>Closed examples\<close>

text \<open>
  A quantile function for the closed examples: strictly increasing, zero at one half,
  and at 0.95 equal to 1.6448535, the standard normal quantile to six places.
\<close>

definition sample_ppf :: "real \<Rightarrow> real" where
  "sample_ppf p = 3.65523 * (p - 1 / 2)"

definition batch_of :: "fval \<Rightarrow> frame" where
  "batch_of dm =
     \<lparr> nrows = 1,
       columns = [(''sku_id'', ObjCol [''SKU-0001'']),
                  (''demand_mean'', NumCol [dm]),
                  (''demand_std'', NumCol [Fin 200]),
                  (''lead_time_mean'', NumCol [Fin 2]),
                  (''lead_time_std'', NumCol [Fin 0.5]),
                  (''unit_cost'', NumCol [Fin 20]),
                  (''ordering_cost'', NumCol [Fin 50])] \<rparr>"

text \<open>The batch of scenario E3, and the same item with no demand.\<close>

definition scenario_e3 :: frame where
  "scenario_e3 = batch_of (Fin 1000)"

definition zero_demand_batch :: frame where
  "zero_demand_batch = batch_of (Fin 0)"


definition default_world :: "frame \<Rightarrow> world" where
  "default_world fr = \<lparr> self_attrs = init None None None, heap = [fr] \<rparr>"


section \<open>Notions for the statements\<close>

text \<open>
  A number that is not negative, in the sense of the comparison \<^verbatim>\<open>0 <= a\<close>; a
  finite number that is a binary64 number.
\<close>

definition nonneg :: "fval \<Rightarrow> bool" where
  "nonneg a = fle (Fin 0) a"

definition is_double :: "fval \<Rightarrow> bool" where
  "is_double a = (round64 (rval a) = rval a \<and> \<bar>rval a\<bar> < 2 ^ 1024)"

text \<open>The store after the frame at \<open>r\<close> is replaced.\<close>

definition put :: "nat \<Rightarrow> frame \<Rightarrow> world \<Rightarrow> world" where
  "put r fr w = w\<lparr>heap := (heap w)[r := fr]\<rparr>"

text \<open>
  When the call of \<^verbatim>\<open>calculate_economic_order_quantity\<close> for a row with unit cost
  \<open>u\<close> raises.
\<close>

definition eoq_raises :: "kind \<Rightarrow> optimizer \<Rightarrow> fval \<Rightarrow> bool" where
  "eoq_raises k self u =
     (k = PyFloat \<and> is_py (holding_cost_rate self) \<and>
      is_zero (fmul (val (holding_cost_rate self)) u))"

text \<open>The derived cells of row \<open>i\<close> of a frame.\<close>

definition levels_at :: "frame \<Rightarrow> nat \<Rightarrow> levels" where
  "levels_at fr i =
     \<lparr> lead_time_demand = num_col fr ''lead_time_demand'' ! i,
       lead_time_demand_std = num_col fr ''lead_time_demand_std'' ! i,
       eoq = num_col fr ''eoq'' ! i,
       reorder_point = num_col fr ''reorder_point'' ! i,
       safety_stock = num_col fr ''safety_stock'' ! i,
       optimal_inventory = num_col fr ''optimal_inventory'' ! i,
       annual_holding_cost = num_col fr ''annual_holding_cost'' ! i,
       annual_ordering_cost = num_col fr ''annual_ordering_cost'' ! i,
       total_annual_cost = num_col fr ''total_annual_cost'' ! i \<rparr>"

text \<open>
  Two stores with the same optimizer, as many frames, and the same frames below
  position \<open>n\<close>.
\<close>

definition same_below :: "nat \<Rightarrow> world \<Rightarrow> world \<Rightarrow> bool" where
  "same_below n w w' =
     (self_attrs w' = self_attrs w \<and> length (heap w') = length (heap w) \<and>
      take n (heap w') = take n (heap w))"

section \<open>Rounding\<close>

lemma rne_of_int [simp]: "rne (of_int m) = m"
  by (simp add: rne_def)

lemma rne_near: "\<bar>q - of_int (rne q)\<bar> \<le> 1 / 2"
  unfolding rne_def Let_def by (auto; linarith)

lemma rne_mono: assumes "q \<le> q'" shows "rne q \<le> rne q'"
proof -
  have f: "\<lfloor>q\<rfloor> \<le> \<lfloor>q'\<rfloor>" using assms by (rule floor_mono)
  show ?thesis
  proof (cases "\<lfloor>q\<rfloor> = \<lfloor>q'\<rfloor>")
    case True
    with assms show ?thesis unfolding rne_def Let_def by auto
  next
    case False
    with f have "\<lfloor>q\<rfloor> + 1 \<le> \<lfloor>q'\<rfloor>" by simp
    moreover have "rne q \<le> \<lfloor>q\<rfloor> + 1" unfolding rne_def Let_def by auto
    moreover have "\<lfloor>q'\<rfloor> \<le> rne q'" unfolding rne_def Let_def by auto
    ultimately show ?thesis by linarith
  qed
qed

lemma rne_minus: "rne (- q) = - rne q"
proof (cases "q \<in> \<int>")
  case True
  then obtain m where "q = of_int m" by (auto elim: Ints_cases)
  then have "rne (- q) = rne (of_int (- m))" by simp
  also have "\<dots> = - m" by (rule rne_of_int)
  finally show ?thesis using \<open>q = of_int m\<close> by simp
next
  case False
  then have ne: "q \<noteq> of_int \<lfloor>q\<rfloor>" by (metis Ints_of_int)
  then have fl: "\<lfloor>- q\<rfloor> = - \<lfloor>q\<rfloor> - 1"
    by (simp add: floor_minus ceiling_altdef)
  have fr: "q - of_int \<lfloor>q\<rfloor> \<noteq> 0" using ne by simp
  show ?thesis unfolding rne_def Let_def fl using fr by (auto; linarith)
qed

lemma ulp_pos [simp]: "0 < ulp x"
  by (simp add: ulp_def)

lemma binade_minus [simp]: "binade (- x) = binade x"
  by (simp add: binade_def)

lemma ulp_minus [simp]: "ulp (- x) = ulp x"
  by (simp add: ulp_def)

lemma round64_minus: "round64 (- x) = - round64 x"
  by (simp add: round64_def rne_minus)

lemma ulp_nonneg [simp]: "0 \<le> ulp x"
  by (simp add: ulp_def)

lemma rne_0 [simp]: "rne 0 = 0"
  by (simp add: rne_def)

lemma round64_0 [simp]: "round64 0 = 0"
  by (simp add: round64_def)

lemma round64_nonneg: assumes "0 \<le> x" shows "0 \<le> round64 x"
proof -
  have "0 \<le> x / ulp x" using assms by (intro divide_nonneg_pos ulp_pos)
  then have "rne 0 \<le> rne (x / ulp x)" by (rule rne_mono)
  then have "0 \<le> rne (x / ulp x)" by simp
  then show ?thesis by (simp add: round64_def)
qed

lemma binade_ge: "- 1022 \<le> binade x"
  by (simp add: binade_def)

lemma binade_upper: assumes "x \<noteq> 0" shows "\<bar>x\<bar> < 2 powr (of_int (binade x) + 1)"
proof -
  have p: "0 < \<bar>x\<bar>" using assms by simp
  have "log 2 \<bar>x\<bar> < of_int \<lfloor>log 2 \<bar>x\<bar>\<rfloor> + 1" by linarith
  also have "\<dots> \<le> of_int (binade x) + 1" by (simp add: binade_def)
  finally have "2 powr (log 2 \<bar>x\<bar>) < 2 powr (of_int (binade x) + 1)"
    by (simp only: powr_less_cancel_iff)
  then show ?thesis using p by simp
qed

lemma binade_lower:
  assumes "x \<noteq> 0" "- 1022 < binade x" shows "2 powr (of_int (binade x)) \<le> \<bar>x\<bar>"
proof -
  have p: "0 < \<bar>x\<bar>" using assms by simp
  from assms(2) have "binade x = \<lfloor>log 2 \<bar>x\<bar>\<rfloor>" by (simp add: binade_def max_def split: if_splits)
  then have "of_int (binade x) \<le> log 2 \<bar>x\<bar>" by simp
  then have "2 powr (of_int (binade x)) \<le> 2 powr (log 2 \<bar>x\<bar>)"
    by (simp only: powr_le_cancel_iff)
  then show ?thesis using p by simp
qed

lemma binade_mono: assumes "0 < x" "x \<le> y" shows "binade x \<le> binade y"
proof -
  have "log 2 \<bar>x\<bar> \<le> log 2 \<bar>y\<bar>" using assms by simp
  then have "\<lfloor>log 2 \<bar>x\<bar>\<rfloor> \<le> \<lfloor>log 2 \<bar>y\<bar>\<rfloor>" by (rule floor_mono)
  then show ?thesis by (simp add: binade_def)
qed

lemma round64_le_top: assumes "0 < x" shows "round64 x \<le> 2 powr (of_int (binade x) + 1)"
proof -
  have "x < 2 powr (of_int (binade x) + 1)" using binade_upper [of x] assms by simp
  then have "x / ulp x \<le> 2 powr (of_int (binade x) + 1) / ulp x"
    by (intro divide_right_mono) simp_all
  also have "\<dots> = 2 powr 53" by (simp add: ulp_def powr_diff [symmetric])
  also have "\<dots> = of_int (2 ^ 53)" by simp
  finally have "rne (x / ulp x) \<le> rne (of_int (2 ^ 53))" by (rule rne_mono)
  then have "of_int (rne (x / ulp x)) \<le> (2 powr 53 :: real)" by (simp only: rne_of_int) simp
  then have "round64 x \<le> 2 powr 53 * ulp x"
    unfolding round64_def by (simp add: mult_right_mono)
  also have "\<dots> = 2 powr (of_int (binade x) + 1)"
    by (simp only: ulp_def powr_add [symmetric]) (simp add: add.commute)
  finally show ?thesis .
qed

lemma round64_ge_bot:
  assumes "0 < x" "2 powr (of_int (binade x)) \<le> x"
  shows "2 powr (of_int (binade x)) \<le> round64 x"
proof -
  have "2 powr (of_int (binade x)) / ulp x \<le> x / ulp x"
    using assms(2) by (intro divide_right_mono) simp_all
  moreover have "2 powr (of_int (binade x)) / ulp x = 2 powr 52"
    by (simp add: ulp_def powr_diff [symmetric])
  moreover have "(2 powr 52 :: real) = of_int (2 ^ 52)" by simp
  ultimately have "rne (of_int (2 ^ 52)) \<le> rne (x / ulp x)" by (simp only: rne_mono)
  then have "(2 powr 52 :: real) \<le> of_int (rne (x / ulp x))" by (simp only: rne_of_int) simp
  then have "2 powr 52 * ulp x \<le> round64 x"
    unfolding round64_def by (simp add: mult_right_mono)
  moreover have "2 powr 52 * ulp x = 2 powr (of_int (binade x))"
    by (simp only: ulp_def powr_add [symmetric]) simp
  ultimately show ?thesis by simp
qed

lemma round64_mono_pos: assumes "0 < x" "x \<le> y" shows "round64 x \<le> round64 y"
proof (cases "binade x = binade y")
  case True
  then have u: "ulp x = ulp y" by (simp add: ulp_def)
  have "x / ulp y \<le> y / ulp y" using assms(2) by (intro divide_right_mono) simp_all
  then have "rne (x / ulp y) \<le> rne (y / ulp y)" by (rule rne_mono)
  then show ?thesis unfolding round64_def u by (simp add: mult_right_mono)
next
  case False
  with binade_mono [OF assms] have lt: "binade x < binade y" by simp
  have y: "0 < y" using assms by simp
  from lt binade_ge [of x] have "- 1022 < binade y" by linarith
  then have "2 powr (of_int (binade y)) \<le> y" using binade_lower [of y] y by simp
  then have b: "2 powr (of_int (binade y)) \<le> round64 y" by (rule round64_ge_bot [OF y])
  have t: "round64 x \<le> 2 powr (of_int (binade x) + 1)" by (rule round64_le_top [OF assms(1)])
  from lt have "(of_int (binade x) + 1 :: real) \<le> of_int (binade y)" by linarith
  then have "(2::real) powr (of_int (binade x) + 1) \<le> 2 powr (of_int (binade y))"
    by (simp only: powr_le_cancel_iff) 
  with t b show ?thesis by linarith
qed

lemma round64_mono: assumes "x \<le> y" shows "round64 x \<le> round64 y"
proof -
  consider "0 < x" | "x \<le> 0" "0 \<le> y" | "y < 0" by linarith
  then show ?thesis
  proof cases
    case 1
    then show ?thesis using assms by (rule round64_mono_pos)
  next
    case 2
    have "round64 x \<le> 0" using round64_nonneg [of "- x"] 2(1) by (simp add: round64_minus)
    moreover have "0 \<le> round64 y" using 2(2) by (rule round64_nonneg)
    ultimately show ?thesis by simp
  next
    case 3
    then have "0 < - y" "- y \<le> - x" using assms by simp_all
    then have "round64 (- y) \<le> round64 (- x)" by (rule round64_mono_pos)
    then show ?thesis by (simp add: round64_minus)
  qed
qed

lemma round64_exact:
  assumes "x = of_int m * 2 powr (of_int k)" "\<bar>m\<bar> < 2 ^ 53" "- 1074 \<le> k"
  shows "round64 x = x"
proof (cases "m = 0")
  case True
  with assms(1) show ?thesis by simp
next
  case False
  then have x0: "x \<noteq> 0" using assms(1) by simp
  have "\<bar>x\<bar> = of_int \<bar>m\<bar> * 2 powr (of_int k)" using assms(1) by (simp add: abs_mult)
  also have "\<dots> < 2 ^ 53 * 2 powr (of_int k)"
    using assms(2) by (simp add: mult_strict_right_mono)
  also have "\<dots> = 2 powr (of_int (53 + k))" by (simp add: powr_add)
  finally have "2 powr (log 2 \<bar>x\<bar>) < 2 powr (of_int (53 + k))" using x0 by simp
  then have "log 2 \<bar>x\<bar> < of_int (53 + k)" by (simp only: powr_less_cancel_iff) 
  then have "\<lfloor>log 2 \<bar>x\<bar>\<rfloor> < 53 + k" by (simp only: floor_less_iff)
  with assms(3) have b: "binade x - 52 \<le> k" by (simp add: binade_def)
  define j where "j = nat (k - (binade x - 52))"
  define u where "u = ulp x"
  have u0: "u \<noteq> 0" unfolding u_def using ulp_pos [of x] by (rule less_imp_neq [symmetric])
  have kj: "k = (binade x - 52) + int j" using b by (simp add: j_def)
  have "(2::real) powr (of_int k) = 2 powr (of_int (binade x) - 52) * 2 powr (of_int (int j))"
    unfolding kj by (simp add: powr_add)
  also have "\<dots> = u * 2 ^ j" by (simp add: u_def ulp_def powr_realpow)
  finally have p: "(2::real) powr (of_int k) = u * 2 ^ j" .
  have xe: "x = of_int m * (u * 2 ^ j)" by (simp only: assms(1) p)
  have q: "x / u = of_int (m * 2 ^ j)" unfolding xe using u0 by simp
  have "round64 x = of_int (rne (x / u)) * u" by (simp add: round64_def u_def)
  also have "\<dots> = of_int (m * 2 ^ j) * u" unfolding q rne_of_int by (rule refl)
  also have "\<dots> = of_int m * (u * 2 ^ j)" by simp
  finally show ?thesis unfolding xe [symmetric] .
qed

lemma round64_of_int: "\<bar>m\<bar> < 2 ^ 53 \<Longrightarrow> round64 (of_int m) = of_int m"
  using round64_exact [of "of_int m" m 0] by simp

lemma round64_dyadic:
  assumes "\<bar>m\<bar> < 2 ^ 53" "n \<le> 1074" shows "round64 (of_int m / 2 ^ n) = of_int m / 2 ^ n"
proof (rule round64_exact [of _ m "- int n"])
  show "of_int m / 2 ^ n = of_int m * 2 powr real_of_int (- int n)"
    by (simp add: powr_minus powr_realpow divide_inverse)
  show "\<bar>m\<bar> < 2 ^ 53" by (rule assms(1))
  show "- 1074 \<le> - int n" using assms(2) by simp
qed

section \<open>The operations\<close>

lemma round64_between:
  assumes "a \<le> x" "x \<le> b" "round64 a = a" "round64 b = b"
  shows "a \<le> round64 x" "round64 x \<le> b"
  using round64_mono [OF assms(1)] round64_mono [OF assms(2)] assms(3,4) by simp_all

lemma rounded_not_NaN [simp]: "rounded s x \<noteq> NaN"
  by (simp add: rounded_def Let_def signed_inf_def signed_zero_def)

lemma rounded_0 [simp]: "rounded s 0 = signed_zero s"
  by (simp add: rounded_def)

lemma rounded_overflow: "2 ^ 1024 \<le> \<bar>round64 x\<bar> \<Longrightarrow> rounded s x = signed_inf s"
  by (simp add: rounded_def)

lemma rounded_finite:
  assumes "\<not> 2 ^ 1024 \<le> \<bar>round64 x\<bar>"
  shows "is_finite (rounded s x)" "rval (rounded s x) = round64 x"
    "is_zero (rounded s x) = (round64 x = 0)"
    "negative (rounded s x) = (if round64 x = 0 then s else round64 x < 0)"
  using assms by (simp_all add: rounded_def Let_def signed_zero_def)

lemma rounded_exact:
  "round64 x = x \<Longrightarrow> x \<noteq> 0 \<Longrightarrow> \<bar>x\<bar> < 2 ^ 1024 \<Longrightarrow> rounded s x = Fin x"
  by (simp add: rounded_def)

lemma rounded_between:
  assumes "0 < a" "a \<le> x" "x \<le> b" "round64 a = a" "round64 b = b" "b < 2 ^ 1024"
  shows "\<exists>y. rounded s x = Fin y \<and> a \<le> y \<and> y \<le> b"
proof -
  note r = round64_between [OF assms(2-5)]
  with assms(1,6) have "\<not> 2 ^ 1024 \<le> \<bar>round64 x\<bar>" "round64 x \<noteq> 0" by simp_all
  then have "rounded s x = Fin (round64 x)" by (simp add: rounded_def)
  with r show ?thesis by simp
qed

lemma signed_simps [simp]:
  "signed_zero s \<noteq> NaN" "signed_inf s \<noteq> NaN"
  "is_zero (signed_zero s)" "is_finite (signed_zero s)" "rval (signed_zero s) = 0"
  "negative (signed_zero s) = s" "negative (signed_inf s) = s"
  "is_inf (signed_inf s)" "\<not> is_finite (signed_inf s)" "\<not> is_zero (signed_inf s)"
  "\<not> is_inf (signed_zero s)"
  by (simp_all add: signed_zero_def signed_inf_def)

lemma is_cases:
  "is_finite a \<Longrightarrow> a \<noteq> NaN" "is_finite a \<Longrightarrow> \<not> is_inf a"
  "is_zero a \<Longrightarrow> is_finite a"
  by (cases a; simp)+

lemma is_zero_rval: "is_zero a \<Longrightarrow> rval a = 0"
  by (cases a) simp_all

lemma is_zero_iff: "is_zero a \<longleftrightarrow> is_finite a \<and> rval a = 0"
  by (cases a) simp_all

lemma fle_refl: "a \<noteq> NaN \<Longrightarrow> fle a a"
  by (cases a) (simp_all add: fle_def)

lemma fle_trans: "fle a b \<Longrightarrow> fle b c \<Longrightarrow> fle a c"
  by (cases a; cases b; cases c) (simp_all add: fle_def)

lemma nonneg_cases:
  "nonneg a \<longleftrightarrow> a = PInf \<or> (is_finite a \<and> 0 \<le> rval a)"
  by (cases a) (simp_all add: nonneg_def fle_def)

lemma nonneg_sign: "nonneg a \<Longrightarrow> negative a \<Longrightarrow> a = NegZero"
  by (cases a) (simp_all add: nonneg_def fle_def)

text \<open>Rounding keeps the order; \<open>s\<close> and \<open>s'\<close> are the signs of the exact results.\<close>

lemma fle_rounded:
  assumes "x \<le> y" "x \<noteq> 0 \<longrightarrow> s = (x < 0)" "y \<noteq> 0 \<longrightarrow> s' = (y < 0)"
  shows "fle (rounded s x) (rounded s' y)"
proof -
  have m: "round64 x \<le> round64 y" using assms(1) by (rule round64_mono)
  have sx: "0 \<le> x \<Longrightarrow> 0 \<le> round64 x" "x \<le> 0 \<Longrightarrow> round64 x \<le> 0"
    using round64_mono [of 0 x] round64_mono [of x 0] by simp_all
  have sy: "0 \<le> y \<Longrightarrow> 0 \<le> round64 y" "y \<le> 0 \<Longrightarrow> round64 y \<le> 0"
    using round64_mono [of 0 y] round64_mono [of y 0] by simp_all
  show ?thesis
  proof (cases "2 ^ 1024 \<le> \<bar>round64 x\<bar>")
    case ox: True
    then have x0: "x \<noteq> 0" by auto
    show ?thesis
    proof (cases "x < 0")
      case True
      with x0 assms(2) have "rounded s x = NInf" by (simp add: rounded_overflow [OF ox] signed_inf_def)
      then show ?thesis by (simp add: fle_def)
    next
      case False
      with x0 have xp: "0 < x" by simp
      with sx ox have "2 ^ 1024 \<le> round64 x" by simp
      with m have oy: "2 ^ 1024 \<le> \<bar>round64 y\<bar>" by simp
      from xp assms(1) have "0 < y" by simp
      with assms(3) have "rounded s' y = PInf" by (simp add: rounded_overflow [OF oy] signed_inf_def)
      then show ?thesis by (simp add: fle_def)
    qed
  next
    case fx: False
    note rx = rounded_finite [OF fx, of s]
    show ?thesis
    proof (cases "2 ^ 1024 \<le> \<bar>round64 y\<bar>")
      case oy: True
      then have y0: "y \<noteq> 0" by auto
      have "0 < y"
      proof (rule ccontr)
        assume "\<not> 0 < y"
        with y0 have "y \<le> 0" by simp
        with sy oy have "round64 y \<le> - (2 ^ 1024)" by simp
        with m have "2 ^ 1024 \<le> \<bar>round64 x\<bar>" by simp
        with fx show False by simp
      qed
      with assms(3) have "rounded s' y = PInf" by (simp add: rounded_overflow [OF oy] signed_inf_def)
      with rx(1) show ?thesis by (simp add: fle_def is_cases)
    next
      case fy: False
      note ry = rounded_finite [OF fy, of s']
      from rx ry m show ?thesis by (simp add: fle_def is_cases)
    qed
  qed
qed

lemma nonneg_rounded: "0 \<le> x \<Longrightarrow> (x \<noteq> 0 \<longrightarrow> \<not> s) \<Longrightarrow> nonneg (rounded s x)"
proof -
  assume a: "0 \<le> x" "x \<noteq> 0 \<longrightarrow> \<not> s"
  have "fle (rounded False 0) (rounded s x)"
    using a by (intro fle_rounded) auto
  then show ?thesis by (simp add: nonneg_def signed_zero_def)
qed

lemma fmul_finite:
  "is_finite a \<Longrightarrow> is_finite b \<Longrightarrow>
     fmul a b = rounded (negative a \<noteq> negative b) (rval a * rval b)"
  by (simp add: fmul_def is_cases)

lemma fdiv_finite:
  "is_finite a \<Longrightarrow> is_finite b \<Longrightarrow> \<not> is_zero b \<Longrightarrow>
     fdiv a b = rounded (negative a \<noteq> negative b) (rval a / rval b)"
  by (simp add: fdiv_def is_cases)

lemma fadd_finite:
  "is_finite a \<Longrightarrow> is_finite b \<Longrightarrow>
     fadd a b = rounded (if rval a + rval b = 0 then negative a \<and> negative b
                         else rval a + rval b < 0) (rval a + rval b)"
  by (simp add: fadd_def is_cases)

lemma fmul_not_NaN: "is_finite a \<Longrightarrow> is_finite b \<Longrightarrow> fmul a b \<noteq> NaN"
  by (simp add: fmul_finite)

lemma nonneg_pos_sign: "nonneg a \<Longrightarrow> rval a \<noteq> 0 \<Longrightarrow> \<not> negative a"
  by (cases a) (simp_all add: nonneg_def fle_def)

lemma nonneg_rval: "nonneg a \<Longrightarrow> 0 \<le> rval a"
  by (cases a) (simp_all add: nonneg_def fle_def)

lemma nonneg_not_NaN: "nonneg a \<Longrightarrow> a \<noteq> NaN"
  by (simp add: nonneg_def fle_def)

lemma nonneg_fmul:
  assumes "nonneg a" "is_finite a" "nonneg b" "is_finite b"
  shows "nonneg (fmul a b)"
proof -
  have "0 \<le> rval a * rval b" using nonneg_rval assms by simp
  moreover have "rval a * rval b \<noteq> 0 \<longrightarrow> \<not> (negative a \<noteq> negative b)"
    using nonneg_pos_sign assms by auto
  ultimately show ?thesis unfolding fmul_finite [OF assms(2,4)] by (rule nonneg_rounded)
qed

lemma fle_fmul_right:
  assumes "nonneg a" "is_finite a" "nonneg a'" "is_finite a'" "nonneg c" "is_finite c"
    "fle a a'"
  shows "fle (fmul a c) (fmul a' c)"
proof -
  have le: "rval a \<le> rval a'" using assms(2,4,7) by (cases a; cases a') (simp_all add: fle_def)
  have "rval a * rval c \<le> rval a' * rval c"
    using le nonneg_rval [OF assms(5)] by (rule mult_right_mono)
  moreover have "rval a * rval c \<noteq> 0 \<longrightarrow>
      (negative a \<noteq> negative c) = (rval a * rval c < 0)"
    using nonneg_pos_sign nonneg_rval assms
    by (auto simp add: mult_less_0_iff not_less)
  moreover have "rval a' * rval c \<noteq> 0 \<longrightarrow>
      (negative a' \<noteq> negative c) = (rval a' * rval c < 0)"
    using nonneg_pos_sign nonneg_rval assms
    by (auto simp add: mult_less_0_iff not_less)
  ultimately show ?thesis
    unfolding fmul_finite [OF assms(2,6)] fmul_finite [OF assms(4,6)] by (rule fle_rounded)
qed

lemma fmul_commute: "fmul a b = fmul b a"
proof -
  have s: "(negative a \<noteq> negative b) = (negative b \<noteq> negative a)" by auto
  show ?thesis unfolding fmul_def s by (auto simp add: mult.commute)
qed

lemma fle_fmul_left:
  assumes "nonneg a" "is_finite a" "nonneg a'" "is_finite a'" "nonneg c" "is_finite c"
    "fle a a'"
  shows "fle (fmul c a) (fmul c a')"
  using fle_fmul_right [OF assms] by (simp add: fmul_commute)

lemma nonneg_fdiv:
  assumes "nonneg n" "0 < y" shows "nonneg (fdiv n (Fin y))"
proof (cases "n = PInf")
  case True
  then show ?thesis using assms(2) by (simp add: fdiv_def nonneg_def fle_def signed_inf_def)
next
  case False
  with assms(1) have f: "is_finite n" by (simp add: nonneg_cases)
  have "0 \<le> rval n / y" using nonneg_rval [OF assms(1)] assms(2) by simp
  moreover have "rval n / y \<noteq> 0 \<longrightarrow> \<not> (negative n \<noteq> negative (Fin y))"
    using nonneg_pos_sign [OF assms(1)] assms(2) by auto
  ultimately have "nonneg (rounded (negative n \<noteq> negative (Fin y)) (rval n / y))"
    by (rule nonneg_rounded)
  then show ?thesis using fdiv_finite [OF f, of "Fin y"] assms(2) by simp
qed

lemma fle_fdiv_num:
  assumes "nonneg n" "nonneg n'" "fle n n'" "0 < y"
  shows "fle (fdiv n (Fin y)) (fdiv n' (Fin y))"
proof (cases "n' = PInf")
  case True
  have "fdiv n (Fin y) \<noteq> NaN" using nonneg_fdiv [OF assms(1,4)] by (rule nonneg_not_NaN)
  with True assms(4) show ?thesis by (simp add: fle_def fdiv_def [of PInf] signed_inf_def)
next
  case False
  with assms(2) have f': "is_finite n'" by (simp add: nonneg_cases)
  with assms(1,3) have f: "is_finite n"
    by (cases n; cases n') (simp_all add: fle_def nonneg_def)
  have le: "rval n \<le> rval n'" using f f' assms(3) by (cases n; cases n') (simp_all add: fle_def)
  have "rval n / y \<le> rval n' / y" using le assms(4) by (simp add: divide_right_mono)
  moreover have "rval n / y \<noteq> 0 \<longrightarrow> (negative n \<noteq> negative (Fin y)) = (rval n / y < 0)"
    using nonneg_pos_sign [OF assms(1)] nonneg_rval [OF assms(1)] assms(4)
    by (auto simp add: divide_less_0_iff not_less)
  moreover have "rval n' / y \<noteq> 0 \<longrightarrow> (negative n' \<noteq> negative (Fin y)) = (rval n' / y < 0)"
    using nonneg_pos_sign [OF assms(2)] nonneg_rval [OF assms(2)] assms(4)
    by (auto simp add: divide_less_0_iff not_less)
  ultimately have "fle (rounded (negative n \<noteq> negative (Fin y)) (rval n / y))
      (rounded (negative n' \<noteq> negative (Fin y)) (rval n' / y))" by (rule fle_rounded)
  then show ?thesis
    using fdiv_finite [OF f, of "Fin y"] fdiv_finite [OF f', of "Fin y"] assms(4) by simp
qed

lemma fle_fdiv_den:
  assumes "nonneg n" "0 < y" "y \<le> y'"
  shows "fle (fdiv n (Fin y')) (fdiv n (Fin y))"
proof (cases "n = PInf")
  case True
  then show ?thesis using assms(2,3) by (simp add: fdiv_def fle_def signed_inf_def)
next
  case False
  with assms(1) have f: "is_finite n" by (simp add: nonneg_cases)
  have y': "0 < y'" using assms(2,3) by simp
  have "rval n / y' \<le> rval n / y"
    using nonneg_rval [OF assms(1)] assms(2,3) by (simp add: frac_le)
  moreover have "rval n / y' \<noteq> 0 \<longrightarrow> (negative n \<noteq> negative (Fin y')) = (rval n / y' < 0)"
    using nonneg_pos_sign [OF assms(1)] nonneg_rval [OF assms(1)] y'
    by (auto simp add: divide_less_0_iff not_less)
  moreover have "rval n / y \<noteq> 0 \<longrightarrow> (negative n \<noteq> negative (Fin y)) = (rval n / y < 0)"
    using nonneg_pos_sign [OF assms(1)] nonneg_rval [OF assms(1)] assms(2)
    by (auto simp add: divide_less_0_iff not_less)
  ultimately have "fle (rounded (negative n \<noteq> negative (Fin y')) (rval n / y'))
      (rounded (negative n \<noteq> negative (Fin y)) (rval n / y))" by (rule fle_rounded)
  then show ?thesis
    using fdiv_finite [OF f, of "Fin y"] fdiv_finite [OF f, of "Fin y'"] assms(2) y' by simp
qed

lemma nonneg_fsqrt: "nonneg a \<Longrightarrow> nonneg (fsqrt a)"
  by (cases a) (simp_all add: nonneg_def fle_def round64_nonneg)

lemma fle_fsqrt:
  assumes "nonneg a" "fle a b" shows "fle (fsqrt a) (fsqrt b)"
proof -
  have m: "round64 (sqrt x) \<le> round64 (sqrt y)" if "x \<le> y" for x y :: real
    using that by (intro round64_mono) simp
  have z: "0 \<le> round64 (sqrt y)" if "0 \<le> y" for y :: real
    using that by (simp add: round64_nonneg)
  show ?thesis
    using assms m z by (cases a; cases b) (auto simp add: nonneg_def fle_def)
qed

lemma is_zero_fmul: "is_zero a \<Longrightarrow> is_finite b \<Longrightarrow> is_zero (fmul a b)"
  by (simp add: fmul_finite is_cases is_zero_rval)

lemma is_zero_fdiv: "is_zero a \<Longrightarrow> y \<noteq> 0 \<Longrightarrow> is_zero (fdiv a (Fin y))"
  using fdiv_finite [of a "Fin y"] by (simp add: is_cases is_zero_rval)

lemma is_zero_fsqrt: "is_zero a \<Longrightarrow> is_zero (fsqrt a)"
  by (cases a) simp_all

lemma fle_fmul_Fin:
  assumes "z \<le> z'" "nonneg S" "is_finite S"
  shows "fle (fmul (Fin z) S) (fmul (Fin z') S)"
proof -
  have s: "0 \<le> rval S" using assms(2) by (rule nonneg_rval)
  have "z * rval S \<le> z' * rval S" using assms(1) s by (rule mult_right_mono)
  moreover have "z * rval S \<noteq> 0 \<longrightarrow> (negative (Fin z) \<noteq> negative S) = (z * rval S < 0)"
    using nonneg_pos_sign [OF assms(2)] s by (auto simp add: mult_less_0_iff not_less)
  moreover have "z' * rval S \<noteq> 0 \<longrightarrow> (negative (Fin z') \<noteq> negative S) = (z' * rval S < 0)"
    using nonneg_pos_sign [OF assms(2)] s by (auto simp add: mult_less_0_iff not_less)
  ultimately have "fle (rounded (negative (Fin z) \<noteq> negative S) (z * rval S))
      (rounded (negative (Fin z') \<noteq> negative S) (z' * rval S))" by (rule fle_rounded)
  then show ?thesis
    using fmul_finite [of "Fin z" S] fmul_finite [of "Fin z'" S] assms(3) by simp
qed

lemma fadd_inf: "is_finite a \<Longrightarrow> is_inf b \<Longrightarrow> fadd a b = b"
  by (cases b) (simp_all add: fadd_def is_cases)

lemma fadd_not_NaN: "is_finite a \<Longrightarrow> b \<noteq> NaN \<Longrightarrow> fadd a b \<noteq> NaN"
  by (cases b) (simp_all add: fadd_def is_cases signed_zero_def)

lemma not_finite_cases: "\<not> is_finite b \<Longrightarrow> b \<noteq> NaN \<Longrightarrow> b = PInf \<or> b = NInf"
  by (cases b) simp_all

lemma fle_fadd_finite:
  assumes "is_finite a" "is_finite b" "is_finite b'" "rval b \<le> rval b'"
  shows "fle (fadd a b) (fadd a b')"
  unfolding fadd_finite [OF assms(1,2)] fadd_finite [OF assms(1,3)]
  using assms(4) by (intro fle_rounded) auto

lemma fle_fadd_right:
  assumes "is_finite a" "fle b b'"
  shows "fle (fadd a b) (fadd a b')"
proof -
  have n: "b \<noteq> NaN" "b' \<noteq> NaN" using assms(2) by (simp_all add: fle_def)
  note nn = fadd_not_NaN [OF assms(1) n(1)] fadd_not_NaN [OF assms(1) n(2)]
  show ?thesis
  proof (cases "is_finite b \<and> is_finite b'")
    case True
    then have "rval b \<le> rval b'" using assms(2) by (cases b; cases b') (simp_all add: fle_def)
    with True assms(1) show ?thesis by (simp add: fle_fadd_finite)
  next
    case False
    then consider "b = NInf" | "b' = PInf"
      using assms(2) n by (cases b; cases b') (simp_all add: fle_def)
    then show ?thesis
    proof cases
      case 1
      then have "fadd a b = NInf" using fadd_inf [OF assms(1), of NInf] by simp
      with nn show ?thesis by (simp add: fle_def)
    next
      case 2
      then have "fadd a b' = PInf" using fadd_inf [OF assms(1), of PInf] by simp
      with nn show ?thesis by (simp add: fle_def)
    qed
  qed
qed

lemma double_rounded:
  "is_finite a \<Longrightarrow> is_double a \<Longrightarrow> rounded (negative a) (rval a) = a"
  by (cases a) (simp_all add: is_double_def rounded_def signed_zero_def)

lemma fle_fadd_ge:
  assumes "is_finite a" "is_double a" "nonneg t"
  shows "fle a (fadd a t)"
proof (cases "t = PInf")
  case True
  then have "fadd a t = PInf" using fadd_inf [OF assms(1), of PInf] by simp
  with assms(1) show ?thesis by (simp add: fle_def is_cases)
next
  case False
  with assms(3) have f: "is_finite t" by (simp add: nonneg_cases)
  have t: "0 \<le> rval t" using assms(3) by (rule nonneg_rval)
  have s: "rval a \<noteq> 0 \<longrightarrow> negative a = (rval a < 0)" using assms(1) by (cases a) simp_all
  have "fle (rounded (negative a) (rval a))
     (rounded (if rval a + rval t = 0 then negative a \<and> negative t
               else rval a + rval t < 0) (rval a + rval t))"
    using t s by (intro fle_rounded) auto
  then show ?thesis
    unfolding fadd_finite [OF assms(1) f] double_rounded [OF assms(1,2)] .
qed

section \<open>Numerals\<close>

lemma round64_numeral [simp]:
  "numeral n < (2::int) ^ 53 \<Longrightarrow> round64 (numeral n) = numeral n"
  using round64_of_int [of "numeral n"] by simp

lemma round64_1 [simp]: "round64 1 = 1"
  using round64_of_int [of 1] by simp

lemma round64_half [simp]: "round64 (1 / 2) = 1 / 2"
  using round64_dyadic [of 1 1] by simp

lemma round64_quarter [simp]: "round64 (1 / 4) = 1 / 4"
  using round64_dyadic [of 1 2] by simp

lemma double_exact: "round64 x = x \<Longrightarrow> x \<noteq> 0 \<Longrightarrow> \<bar>x\<bar> < 2 ^ 1024 \<Longrightarrow> double x = Fin x"
  by (simp add: double_def rounded_exact)

lemma round64_095: "1020054732 / 2 ^ 30 \<le> round64 0.95" "round64 0.95 \<le> 1020054733 / 2 ^ 30"
proof -
  have a: "round64 (1020054732 / 2 ^ 30) = 1020054732 / 2 ^ 30"
    using round64_dyadic [of 1020054732 30] by simp
  have b: "round64 (1020054733 / 2 ^ 30) = 1020054733 / 2 ^ 30"
    using round64_dyadic [of 1020054733 30] by simp
  have "(1020054732 / 2 ^ 30 :: real) \<le> 0.95" "(0.95 :: real) \<le> 1020054733 / 2 ^ 30" by simp_all
  from round64_between [OF this a b]
  show "1020054732 / 2 ^ 30 \<le> round64 0.95" "round64 0.95 \<le> 1020054733 / 2 ^ 30" .
qed

lemma double_095: "double 0.95 = Fin (round64 0.95)" "0 < round64 0.95" "round64 0.95 < 1"
proof -
  note b = round64_095
  from b show p: "0 < round64 0.95" by simp
  from b show l: "round64 0.95 < 1" by simp
  from p l show "double 0.95 = Fin (round64 0.95)"
    by (simp add: double_def rounded_def)
qed

lemma sqrt_20000: "144815 / 2 ^ 10 \<le> round64 (sqrt 20000)" "round64 (sqrt 20000) \<le> 144816 / 2 ^ 10"
proof -
  have a: "round64 (144815 / 2 ^ 10) = 144815 / 2 ^ 10"
    using round64_dyadic [of 144815 10] by simp
  have b: "round64 (144816 / 2 ^ 10) = 144816 / 2 ^ 10"
    using round64_dyadic [of 144816 10] by simp
  have "144815 / 2 ^ 10 \<le> sqrt 20000"
    by (rule real_le_rsqrt) (simp add: power2_eq_square)
  moreover have "sqrt 20000 \<le> 144816 / 2 ^ 10"
    by (rule real_le_lsqrt) (simp_all add: power2_eq_square)
  ultimately show "144815 / 2 ^ 10 \<le> round64 (sqrt 20000)"
    "round64 (sqrt 20000) \<le> 144816 / 2 ^ 10"
    using round64_between [OF _ _ a b] by simp_all
qed

lemma sqrt_410000:
  "655679 / 2 ^ 10 \<le> round64 (sqrt 410000)" "round64 (sqrt 410000) \<le> 655680 / 2 ^ 10"
proof -
  have a: "round64 (655679 / 2 ^ 10) = 655679 / 2 ^ 10"
    using round64_dyadic [of 655679 10] by simp
  have b: "round64 (655680 / 2 ^ 10) = 655680 / 2 ^ 10"
    using round64_dyadic [of 655680 10] by simp
  have "655679 / 2 ^ 10 \<le> sqrt 410000"
    by (rule real_le_rsqrt) (simp add: power2_eq_square)
  moreover have "sqrt 410000 \<le> 655680 / 2 ^ 10"
    by (rule real_le_lsqrt) (simp_all add: power2_eq_square)
  ultimately show "655679 / 2 ^ 10 \<le> round64 (sqrt 410000)"
    "round64 (sqrt 410000) \<le> 655680 / 2 ^ 10"
    using round64_between [OF _ _ a b] by simp_all
qed


text \<open>Operations whose exact result is a binary64 number.\<close>

lemma fmul_Fin_exact:
  "round64 (a * b) = a * b \<Longrightarrow> a * b \<noteq> 0 \<Longrightarrow> \<bar>a * b\<bar> < 2 ^ 1024 \<Longrightarrow>
     fmul (Fin a) (Fin b) = Fin (a * b)"
  by (simp add: fmul_def rounded_exact)

lemma fdiv_Fin_exact:
  "round64 (a / b) = a / b \<Longrightarrow> a / b \<noteq> 0 \<Longrightarrow> \<bar>a / b\<bar> < 2 ^ 1024 \<Longrightarrow>
     fdiv (Fin a) (Fin b) = Fin (a / b)"
  by (simp add: fdiv_def rounded_exact)

lemma fadd_Fin_exact:
  "round64 (a + b) = a + b \<Longrightarrow> a + b \<noteq> 0 \<Longrightarrow> \<bar>a + b\<bar> < 2 ^ 1024 \<Longrightarrow>
     fadd (Fin a) (Fin b) = Fin (a + b)"
  by (simp add: fadd_def rounded_exact)

lemma fmul_Fin_0 [simp]: "fmul (Fin 0) (Fin b) = signed_zero (b < 0)" "fmul (Fin a) (Fin 0) = signed_zero (a < 0)"
  by (simp_all add: fmul_def)

section \<open>Scalars and the two formulas\<close>

lemma val_smul: "val (smul x y) = fmul (val x) (val y)"
  by (cases x; cases y) simp_all

lemma val_sadd: "val (sadd x y) = fadd (val x) (val y)"
  by (cases x; cases y) simp_all

lemma is_py_smul: "is_py (smul x y) \<longleftrightarrow> is_py x \<and> is_py y"
  by (cases x; cases y) simp_all

lemma is_py_sadd: "is_py (sadd x y) \<longleftrightarrow> is_py x \<and> is_py y"
  by (cases x; cases y) simp_all

lemma scalar_eq_iff: "x = y \<longleftrightarrow> is_py x = is_py y \<and> val x = val y"
  by (cases x; cases y) simp_all

lemma sdiv_cases:
  "sdiv x y = (if is_py x \<and> is_py y then
                 (if is_zero (val y) then Inl ZeroDivisionError else Inr (Py (fdiv (val x) (val y))))
               else Inr (Np (fdiv (val x) (val y))))"
  by (cases x; cases y) simp_all

lemma eoq_cases:
  "calculate_economic_order_quantity self xd xc xu =
     (if is_py xd \<and> is_py xc \<and> is_py (holding_cost_rate self) \<and> is_py xu
         \<and> is_zero (fmul (val (holding_cost_rate self)) (val xu))
      then Inl ZeroDivisionError
      else Inr (Np (fsqrt (fdiv (fmul (fmul (Fin 2) (val xd)) (val xc))
                                (fmul (val (holding_cost_rate self)) (val xu))))))"
  by (simp add: calculate_economic_order_quantity_def sdiv_cases is_py_smul val_smul np_sqrt_def)

lemma rop_cases:
  "calculate_reorder_point ppf self xl xs arg =
     Np (fadd (val xl)
          (fmul (val (norm_ppf ppf (case arg of None \<Rightarrow> service_level self | Some s \<Rightarrow> s)))
                (val xs)))"
  by (simp add: calculate_reorder_point_def Let_def scalar_eq_iff is_py_sadd is_py_smul
      val_sadd val_smul norm_ppf_def)

section \<open>Running the optimizer\<close>

lemma put_simps:
  "self_attrs (put r fr w) = self_attrs w"
  "length (heap (put r fr w)) = length (heap w)"
  "r < length (heap w) \<Longrightarrow> heap (put r fr w) ! r = fr"
  "put r fr' (put r fr w) = put r fr' w"
  by (simp_all add: put_def)

lemma has_num_setitem:
  "has_num (setitem fr n c) n' xs = (if n' = n then c = NumCol xs else has_num fr n' xs)"
  by (simp add: has_num_def setitem_def update_conv')

lemma nrows_setitem: "nrows (setitem fr n c) = nrows fr"
  by (simp add: setitem_def)

lemma getitem_has_num: "has_num fr name xs \<Longrightarrow> getitem fr name = Inr (NumCol xs)"
  by (simp add: has_num_def getitem_def)

lemma map2_tab: "map2 f (map g xs) (map h xs) = map (\<lambda>i. f (g i) (h i)) xs"
  by (induction xs) simp_all

lemma col_ops:
  "col_mul (NumCol (map g xs)) (NumCol (map h xs)) = Inr (NumCol (map (\<lambda>i. fmul (g i) (h i)) xs))"
  "col_div (NumCol (map g xs)) (NumCol (map h xs)) = Inr (NumCol (map (\<lambda>i. fdiv (g i) (h i)) xs))"
  "col_add (NumCol (map g xs)) (NumCol (map h xs)) = Inr (NumCol (map (\<lambda>i. fadd (g i) (h i)) xs))"
  "col_sub (NumCol (map g xs)) (NumCol (map h xs)) = Inr (NumCol (map (\<lambda>i. fsub (g i) (h i)) xs))"
  "col_pow2 (NumCol (map g xs)) = Inr (NumCol (map (\<lambda>i. fmul (g i) (g i)) xs))"
  "col_sqrt (NumCol (map g xs)) = Inr (NumCol (map (\<lambda>i. fsqrt (g i)) xs))"
  "col_mul_scalar (NumCol (map g xs)) s = Inr (NumCol (map (\<lambda>i. fmul (g i) (val s)) xs))"
  by (simp_all add: col_mul_def col_div_def col_add_def col_sub_def col_pow2_def col_sqrt_def
      col_mul_scalar_def map2_tab)

lemma bnd_getitem:
  "has_num (heap w ! r) name xs \<Longrightarrow> bnd (df_getitem r name) f w = f (NumCol xs) w"
  by (simp add: bnd_def df_getitem_def getitem_has_num)

lemma bnd_lift_Inr: "bnd (lift (Inr x)) f w = f x w"
  by (simp add: bnd_def lift_def)

lemma bnd_get_self: "bnd get_self f w = f (self_attrs w) w"
  by (simp add: bnd_def get_self_def)

lemma df_setitem_put: "df_setitem r name c w = (Inr (), put r (setitem (heap w ! r) name c) w)"
  by (simp add: df_setitem_def put_def)

lemma run_lead_time_demand:
  assumes "has_num (heap w ! r) ''demand_mean'' (map a xs)"
    "has_num (heap w ! r) ''lead_time_mean'' (map b xs)"
  shows "assign_lead_time_demand r w =
    (Inr (), put r (setitem (heap w ! r) ''lead_time_demand''
        (NumCol (map (\<lambda>i. fmul (a i) (b i)) xs))) w)"
  unfolding assign_lead_time_demand_def
  by (simp add: bnd_getitem [OF assms(1)] bnd_getitem [OF assms(2)] col_ops bnd_lift_Inr
      df_setitem_put)

lemma run_lead_time_demand_std:
  assumes "has_num (heap w ! r) ''demand_mean'' (map a xs)"
    "has_num (heap w ! r) ''lead_time_std'' (map b xs)"
    "has_num (heap w ! r) ''lead_time_mean'' (map c xs)"
    "has_num (heap w ! r) ''demand_std'' (map d xs)"
  shows "assign_lead_time_demand_std r w =
    (Inr (), put r (setitem (heap w ! r) ''lead_time_demand_std''
        (NumCol (map (\<lambda>i. fsqrt (fadd (fmul (fmul (a i) (a i)) (fmul (b i) (b i)))
                                      (fmul (fmul (c i) (c i)) (fmul (d i) (d i))))) xs))) w)"
  unfolding assign_lead_time_demand_std_def
  by (simp add: bnd_getitem [OF assms(1)] bnd_getitem [OF assms(2)] bnd_getitem [OF assms(3)]
      bnd_getitem [OF assms(4)] col_ops bnd_lift_Inr df_setitem_put)

lemma run_safety_stock:
  assumes "has_num (heap w ! r) ''reorder_point'' (map a xs)"
    "has_num (heap w ! r) ''lead_time_demand'' (map b xs)"
  shows "assign_safety_stock r w =
    (Inr (), put r (setitem (heap w ! r) ''safety_stock''
        (NumCol (map (\<lambda>i. fsub (a i) (b i)) xs))) w)"
  unfolding assign_safety_stock_def
  by (simp add: bnd_getitem [OF assms(1)] bnd_getitem [OF assms(2)] col_ops bnd_lift_Inr
      df_setitem_put)

lemma run_optimal_inventory:
  assumes "has_num (heap w ! r) ''eoq'' (map a xs)"
    "has_num (heap w ! r) ''safety_stock'' (map b xs)"
  shows "assign_optimal_inventory r w =
    (Inr (), put r (setitem (heap w ! r) ''optimal_inventory''
        (NumCol (map (\<lambda>i. fadd (a i) (b i)) xs))) w)"
  unfolding assign_optimal_inventory_def
  by (simp add: bnd_getitem [OF assms(1)] bnd_getitem [OF assms(2)] col_ops bnd_lift_Inr
      df_setitem_put)

lemma run_annual_holding_cost:
  assumes "has_num (heap w ! r) ''optimal_inventory'' (map a xs)"
    "has_num (heap w ! r) ''unit_cost'' (map b xs)"
  shows "assign_annual_holding_cost r w =
    (Inr (), put r (setitem (heap w ! r) ''annual_holding_cost''
        (NumCol (map (\<lambda>i. fmul (fmul (a i) (b i)) (val (holding_cost_rate (self_attrs w)))) xs))) w)"
  unfolding assign_annual_holding_cost_def
  by (simp add: bnd_getitem [OF assms(1)] bnd_getitem [OF assms(2)] col_ops bnd_lift_Inr
      bnd_get_self df_setitem_put)

lemma run_annual_ordering_cost:
  assumes "has_num (heap w ! r) ''demand_mean'' (map a xs)"
    "has_num (heap w ! r) ''eoq'' (map b xs)"
    "has_num (heap w ! r) ''ordering_cost'' (map c xs)"
  shows "assign_annual_ordering_cost r w =
    (Inr (), put r (setitem (heap w ! r) ''annual_ordering_cost''
        (NumCol (map (\<lambda>i. fmul (fdiv (a i) (b i)) (c i)) xs))) w)"
  unfolding assign_annual_ordering_cost_def
  by (simp add: bnd_getitem [OF assms(1)] bnd_getitem [OF assms(2)] bnd_getitem [OF assms(3)]
      col_ops bnd_lift_Inr df_setitem_put)

lemma run_total_annual_cost:
  assumes "has_num (heap w ! r) ''annual_holding_cost'' (map a xs)"
    "has_num (heap w ! r) ''annual_ordering_cost'' (map b xs)"
  shows "assign_total_annual_cost r w =
    (Inr (), put r (setitem (heap w ! r) ''total_annual_cost''
        (NumCol (map (\<lambda>i. fadd (a i) (b i)) xs))) w)"
  unfolding assign_total_annual_cost_def
  by (simp add: bnd_getitem [OF assms(1)] bnd_getitem [OF assms(2)] col_ops bnd_lift_Inr
      df_setitem_put)

lemma ebind_simps: "ebind (Inr x) f = f x" "ebind (Inl e) f = Inl e"
  by (simp_all add: ebind_def)

lemma collect_all_Inr:
  "(\<And>x. x \<in> set xs \<Longrightarrow> f x = Inr (g x)) \<Longrightarrow> collect (map f xs) = Inr (map g xs)"
  by (induction xs) (simp_all add: ebind_simps)

lemma collect_raise:
  "\<exists>x \<in> set xs. f x = Inl e \<Longrightarrow> \<forall>x \<in> set xs. f x = Inl e \<or> (\<exists>y. f x = Inr y)
     \<Longrightarrow> collect (map f xs) = Inl e"
proof (induction xs)
  case Nil
  then show ?case by simp
next
  case (Cons x xs)
  show ?case
  proof (cases "f x")
    case (Inl e')
    with Cons.prems(2) have "e' = e" by auto
    with Inl show ?thesis by (simp add: ebind_simps)
  next
    case (Inr y)
    with Cons.prems(1) have "\<exists>x \<in> set xs. f x = Inl e" by auto
    moreover from Cons.prems(2) have "\<forall>x \<in> set xs. f x = Inl e \<or> (\<exists>y. f x = Inr y)" by simp
    ultimately have "collect (map f xs) = Inl e" by (rule Cons.IH)
    with Inr show ?thesis by (simp add: ebind_simps)
  qed
qed

lemma scalar_of_simps: "is_py (scalar_of k x) = (k = PyFloat)" "val (scalar_of k x) = x"
  by (cases k; simp)+

lemma series_getitem_iloc:
  "has_num fr name xs \<Longrightarrow>
     series_getitem (iloc k fr i) name = Inr (NumCell (scalar_of k (xs ! i)))"
  by (simp add: has_num_def series_getitem_def iloc_def map_of_map)

lemma eoq_of_row_iloc:
  assumes "has_num fr ''demand_mean'' da" "has_num fr ''ordering_cost'' ca"
    "has_num fr ''unit_cost'' ua"
  shows "eoq_of_row self (iloc k fr i) =
     calculate_economic_order_quantity self (scalar_of k (da ! i)) (scalar_of k (ca ! i))
       (scalar_of k (ua ! i))"
  by (simp add: eoq_of_row_def series_getitem_iloc [OF assms(1)] series_getitem_iloc [OF assms(2)]
      series_getitem_iloc [OF assms(3)] ebind_simps)

lemma reorder_point_of_row_iloc:
  assumes "has_num fr ''lead_time_demand'' da" "has_num fr ''lead_time_demand_std'' sa"
  shows "reorder_point_of_row ppf self (iloc k fr i) =
     Inr (calculate_reorder_point ppf self (scalar_of k (da ! i)) (scalar_of k (sa ! i)) None)"
  by (simp add: reorder_point_of_row_def series_getitem_iloc [OF assms(1)]
      series_getitem_iloc [OF assms(2)] ebind_simps)

lemma eoq_scalar_of:
  "calculate_economic_order_quantity self (scalar_of k a) (scalar_of k c) (scalar_of k u) =
     (if eoq_raises k self u then Inl ZeroDivisionError
      else Inr (Np (fsqrt (fdiv (fmul (fmul (Fin 2) a) c)
                                (fmul (val (holding_cost_rate self)) u)))))"
  by (auto simp add: eoq_cases scalar_of_simps eoq_raises_def)

lemma apply_eoq:
  assumes "nrows fr = n" "has_num fr ''demand_mean'' (map a [0..<n])"
    "has_num fr ''ordering_cost'' (map c [0..<n])" "has_num fr ''unit_cost'' (map u [0..<n])"
  shows "apply_axis1 k (eoq_of_row self) fr =
     (if \<exists>i<n. eoq_raises k self (u i) then Inl ZeroDivisionError
      else Inr (NumCol (map (\<lambda>i. fsqrt (fdiv (fmul (fmul (Fin 2) (a i)) (c i))
                                (fmul (val (holding_cost_rate self)) (u i)))) [0..<n])))"
proof -
  let ?f = "\<lambda>i. eoq_of_row self (iloc k fr i)"
  let ?g = "\<lambda>i. Np (fsqrt (fdiv (fmul (fmul (Fin 2) (a i)) (c i))
                                (fmul (val (holding_cost_rate self)) (u i))))"
  have f: "?f i = (if eoq_raises k self (u i) then Inl ZeroDivisionError else Inr (?g i))"
    if "i < n" for i
    using that by (simp add: eoq_of_row_iloc [OF assms(2-4)] eoq_scalar_of)
  show ?thesis
  proof (cases "\<exists>i<n. eoq_raises k self (u i)")
    case True
    then have "\<exists>i \<in> set [0..<n]. ?f i = Inl ZeroDivisionError"
      using f by auto
    moreover have "\<forall>i \<in> set [0..<n]. ?f i = Inl ZeroDivisionError \<or> (\<exists>y. ?f i = Inr y)"
      using f by auto
    ultimately have "collect (map ?f [0..<n]) = Inl ZeroDivisionError"
      by (rule collect_raise)
    with True show ?thesis by (simp add: apply_axis1_def assms(1) ebind_simps)
  next
    case False
    then have "collect (map ?f [0..<n]) = Inr (map ?g [0..<n])"
      using f by (intro collect_all_Inr) auto
    with False show ?thesis by (simp add: apply_axis1_def assms(1) ebind_simps comp_def)
  qed
qed

lemma apply_reorder_point:
  assumes "nrows fr = n" "has_num fr ''lead_time_demand'' (map a [0..<n])"
    "has_num fr ''lead_time_demand_std'' (map s [0..<n])"
  shows "apply_axis1 k (reorder_point_of_row ppf self) fr =
     Inr (NumCol (map (\<lambda>i. val (calculate_reorder_point ppf self (scalar_of k (a i))
                                   (scalar_of k (s i)) None)) [0..<n]))"
proof -
  let ?f = "\<lambda>i. reorder_point_of_row ppf self (iloc k fr i)"
  let ?g = "\<lambda>i. calculate_reorder_point ppf self (scalar_of k (a i)) (scalar_of k (s i)) None"
  have "collect (map ?f [0..<n]) = Inr (map ?g [0..<n])"
    by (intro collect_all_Inr) (simp add: reorder_point_of_row_iloc [OF assms(2-3)])
  then show ?thesis by (simp add: apply_axis1_def assms(1) ebind_simps comp_def)
qed

lemma run_eoq:
  assumes "nrows (heap w ! r) = n" "has_num (heap w ! r) ''demand_mean'' (map a [0..<n])"
    "has_num (heap w ! r) ''ordering_cost'' (map c [0..<n])"
    "has_num (heap w ! r) ''unit_cost'' (map u [0..<n])"
  shows "assign_eoq k r w =
    (if \<exists>i<n. eoq_raises k (self_attrs w) (u i) then (Inl ZeroDivisionError, w)
     else (Inr (), put r (setitem (heap w ! r) ''eoq''
        (NumCol (map (\<lambda>i. fsqrt (fdiv (fmul (fmul (Fin 2) (a i)) (c i))
                     (fmul (val (holding_cost_rate (self_attrs w))) (u i)))) [0..<n]))) w))"
  unfolding assign_eoq_def
  by (simp add: bnd_def get_self_def df_apply_axis1_def apply_eoq [OF assms] df_setitem_put)

lemma run_reorder_point:
  assumes "nrows (heap w ! r) = n" "has_num (heap w ! r) ''lead_time_demand'' (map a [0..<n])"
    "has_num (heap w ! r) ''lead_time_demand_std'' (map s [0..<n])"
  shows "assign_reorder_point k ppf r w =
    (Inr (), put r (setitem (heap w ! r) ''reorder_point''
        (NumCol (map (\<lambda>i. val (calculate_reorder_point ppf (self_attrs w) (scalar_of k (a i))
                                   (scalar_of k (s i)) None)) [0..<n]))) w)"
  unfolding assign_reorder_point_def
  by (simp add: bnd_def get_self_def df_apply_axis1_def apply_reorder_point [OF assms]
      df_setitem_put)

lemma numeric_input_col:
  assumes "numeric_input fr" "name \<in> set input_names"
  shows "has_num fr name (map (\<lambda>i. num_col fr name ! i) [0..<nrows fr])"
proof -
  from assms have "case map_of (columns fr) name of Some (NumCol xs) \<Rightarrow> True | _ \<Rightarrow> False"
    by (simp add: numeric_input_def list_all_iff)
  then obtain xs where xs: "map_of (columns fr) name = Some (NumCol xs)"
    by (cases "map_of (columns fr) name"; simp split: column.splits)
  then have "(name, NumCol xs) \<in> set (columns fr)" by (rule map_of_SomeD)
  with assms(1) have "length xs = nrows fr"
    by (auto simp add: numeric_input_def wf_frame_def list_all_iff)
  then have "map (\<lambda>i. xs ! i) [0..<nrows fr] = xs" using map_nth [of xs] by simp
  with xs show ?thesis by (simp add: has_num_def num_col_def)
qed

lemma put_append:
  "put (length (heap w)) fr' (w\<lparr>heap := heap w @ [fr]\<rparr>) = w\<lparr>heap := heap w @ [fr']\<rparr>"
  by (simp add: put_def)

lemma optimize_run:
  assumes ni: "numeric_input fr" and d: "data < length (heap w)" and fr: "heap w ! data = fr"
  shows "optimize_inventory_levels k ppf data w =
    (if \<exists>it \<in> set (items fr). row_raises k (self_attrs w) it
     then (Inl ZeroDivisionError,
           w\<lparr>heap := heap w @ [setitem (setitem fr
               ''lead_time_demand''
                 (NumCol (map (\<lambda>it. lead_time_demand (row_levels k ppf (self_attrs w) it)) (items fr))))
               ''lead_time_demand_std''
                 (NumCol (map (\<lambda>it. lead_time_demand_std (row_levels k ppf (self_attrs w) it)) (items fr)))]\<rparr>)
     else (Inr (length (heap w)),
           w\<lparr>heap := heap w @ [with_levels fr (map (row_levels k ppf (self_attrs w)) (items fr))]\<rparr>))"
proof -
  define n where "n = nrows fr"
  define self where "self = self_attrs w"
  define r where "r = length (heap w)"
  define w1 where "w1 = w\<lparr>heap := heap w @ [fr]\<rparr>"
  define dm where "dm = (\<lambda>i. num_col fr ''demand_mean'' ! i)"
  define ds where "ds = (\<lambda>i. num_col fr ''demand_std'' ! i)"
  define ltm where "ltm = (\<lambda>i. num_col fr ''lead_time_mean'' ! i)"
  define lts where "lts = (\<lambda>i. num_col fr ''lead_time_std'' ! i)"
  define uc where "uc = (\<lambda>i. num_col fr ''unit_cost'' ! i)"
  define oc where "oc = (\<lambda>i. num_col fr ''ordering_cost'' ! i)"
  define ltd where "ltd = (\<lambda>i. fmul (dm i) (ltm i))"
  define ltds where "ltds = (\<lambda>i. fsqrt (fadd (fmul (fmul (dm i) (dm i)) (fmul (lts i) (lts i)))
                                      (fmul (fmul (ltm i) (ltm i)) (fmul (ds i) (ds i)))))"
  define q where "q = (\<lambda>i. fsqrt (fdiv (fmul (fmul (Fin 2) (dm i)) (oc i))
                     (fmul (val (holding_cost_rate self)) (uc i))))"
  define rop where "rop = (\<lambda>i. val (calculate_reorder_point ppf self (scalar_of k (ltd i))
                                   (scalar_of k (ltds i)) None))"
  define ss where "ss = (\<lambda>i. fsub (rop i) (ltd i))"
  define inv where "inv = (\<lambda>i. fadd (q i) (ss i))"
  define hold where "hold = (\<lambda>i. fmul (fmul (inv i) (uc i)) (val (holding_cost_rate self)))"
  define ord where "ord = (\<lambda>i. fmul (fdiv (dm i) (q i)) (oc i))"
  define tot where "tot = (\<lambda>i. fadd (hold i) (ord i))"
  define fr1 where "fr1 = setitem fr ''lead_time_demand'' (NumCol (map ltd [0..<n]))"
  define fr2 where "fr2 = setitem fr1 ''lead_time_demand_std'' (NumCol (map ltds [0..<n]))"
  define fr3 where "fr3 = setitem fr2 ''eoq'' (NumCol (map q [0..<n]))"
  define fr4 where "fr4 = setitem fr3 ''reorder_point'' (NumCol (map rop [0..<n]))"
  define fr5 where "fr5 = setitem fr4 ''safety_stock'' (NumCol (map ss [0..<n]))"
  define fr6 where "fr6 = setitem fr5 ''optimal_inventory'' (NumCol (map inv [0..<n]))"
  define fr7 where "fr7 = setitem fr6 ''annual_holding_cost'' (NumCol (map hold [0..<n]))"
  define fr8 where "fr8 = setitem fr7 ''annual_ordering_cost'' (NumCol (map ord [0..<n]))"
  define fr9 where "fr9 = setitem fr8 ''total_annual_cost'' (NumCol (map tot [0..<n]))"
  note frs = fr1_def fr2_def fr3_def fr4_def fr5_def fr6_def fr7_def fr8_def fr9_def

  have c0: "has_num fr ''demand_mean'' (map dm [0..<n])" "has_num fr ''demand_std'' (map ds [0..<n])"
    "has_num fr ''lead_time_mean'' (map ltm [0..<n])" "has_num fr ''lead_time_std'' (map lts [0..<n])"
    "has_num fr ''unit_cost'' (map uc [0..<n])" "has_num fr ''ordering_cost'' (map oc [0..<n])"
    unfolding dm_def ds_def ltm_def lts_def uc_def oc_def n_def
    by (rule numeric_input_col [OF ni], simp add: input_names_def)+

  have r: "r < length (heap w1)" and h1: "heap w1 ! r = fr" and s1: "self_attrs w1 = self"
    by (simp_all add: r_def w1_def self_def)
  have hp: "heap (put r f w1) ! r = f" for f
    using r by (simp add: put_simps)
  have sp: "self_attrs (put r f w1) = self" for f
    by (simp add: put_simps s1)
  have nr: "nrows fr1 = n" "nrows fr2 = n" "nrows fr3 = n"
    by (simp_all add: frs nrows_setitem n_def)

  have copy: "df_copy data w = (Inr r, w1)"
    by (simp add: df_copy_def r_def w1_def fr)
  have e1: "assign_lead_time_demand r w1 = (Inr (), put r fr1 w1)"
    using run_lead_time_demand [of w1 r dm "[0..<n]" ltm] c0
    by (simp add: h1 fr1_def ltd_def)
  have e2: "assign_lead_time_demand_std r (put r fr1 w1) = (Inr (), put r fr2 w1)"
    using run_lead_time_demand_std [of "put r fr1 w1" r dm "[0..<n]" lts ltm ds] c0
    by (simp add: hp put_simps fr1_def fr2_def ltds_def has_num_setitem)
  have e3: "assign_eoq k r (put r fr2 w1) =
      (if \<exists>i<n. eoq_raises k self (uc i) then (Inl ZeroDivisionError, put r fr2 w1)
       else (Inr (), put r fr3 w1))"
    using run_eoq [of "put r fr2 w1" r n dm oc uc k] c0 nr
    by (simp add: hp sp s1 put_simps fr1_def fr2_def fr3_def q_def has_num_setitem)
  have e4: "assign_reorder_point k ppf r (put r fr3 w1) = (Inr (), put r fr4 w1)"
    using run_reorder_point [of "put r fr3 w1" r n ltd ltds k ppf] nr
    by (simp add: hp sp s1 put_simps fr1_def fr2_def fr3_def fr4_def rop_def has_num_setitem)
  have e5: "assign_safety_stock r (put r fr4 w1) = (Inr (), put r fr5 w1)"
    using run_safety_stock [of "put r fr4 w1" r rop "[0..<n]" ltd]
    by (simp add: hp put_simps frs ss_def has_num_setitem)
  have e6: "assign_optimal_inventory r (put r fr5 w1) = (Inr (), put r fr6 w1)"
    using run_optimal_inventory [of "put r fr5 w1" r q "[0..<n]" ss]
    by (simp add: hp put_simps frs inv_def has_num_setitem)
  have e7: "assign_annual_holding_cost r (put r fr6 w1) = (Inr (), put r fr7 w1)"
    using run_annual_holding_cost [of "put r fr6 w1" r inv "[0..<n]" uc] c0
    by (simp add: hp sp s1 put_simps frs hold_def has_num_setitem)
  have e8: "assign_annual_ordering_cost r (put r fr7 w1) = (Inr (), put r fr8 w1)"
    using run_annual_ordering_cost [of "put r fr7 w1" r dm "[0..<n]" q oc] c0
    by (simp add: hp put_simps frs ord_def has_num_setitem)
  have e9: "assign_total_annual_cost r (put r fr8 w1) = (Inr (), put r fr9 w1)"
    using run_total_annual_cost [of "put r fr8 w1" r hold "[0..<n]" ord]
    by (simp add: hp put_simps frs tot_def has_num_setitem)

  have run: "optimize_inventory_levels k ppf data w =
      (if \<exists>i<n. eoq_raises k self (uc i) then (Inl ZeroDivisionError, put r fr2 w1)
       else (Inr r, put r fr9 w1))"
    unfolding optimize_inventory_levels_def
    by (simp add: bnd_def copy e1 e2 e3 e4 e5 e6 e7 e8 e9 ret_def)

  have raises: "(\<exists>it \<in> set (items fr). row_raises k (self_attrs w) it)
      \<longleftrightarrow> (\<exists>i<n. eoq_raises k self (uc i))"
    by (auto simp add: items_def row_raises_def eoq_raises_def item_at_def uc_def n_def self_def)
  have lv: "map f (map (row_levels k ppf self) (items fr))
      = map (\<lambda>i. f (row_levels k ppf self (item_at fr i))) [0..<n]" for f :: "levels \<Rightarrow> fval"
    by (simp add: items_def n_def comp_def)
  have rl: "row_levels k ppf self (item_at fr i) =
      \<lparr> lead_time_demand = ltd i, lead_time_demand_std = ltds i, eoq = q i,
        reorder_point = rop i, safety_stock = ss i, optimal_inventory = inv i,
        annual_holding_cost = hold i, annual_ordering_cost = ord i,
        total_annual_cost = tot i \<rparr>" for i
    by (simp add: row_levels_def item_at_def Let_def ltd_def ltds_def q_def rop_def ss_def
        inv_def hold_def ord_def tot_def dm_def ds_def ltm_def lts_def uc_def oc_def)
  have f9: "fr9 = with_levels fr (map (row_levels k ppf self) (items fr))"
    unfolding with_levels_def lv rl by (simp add: frs)
  have f2: "fr2 = setitem (setitem fr
               ''lead_time_demand''
                 (NumCol (map (\<lambda>it. lead_time_demand (row_levels k ppf self it)) (items fr))))
               ''lead_time_demand_std''
                 (NumCol (map (\<lambda>it. lead_time_demand_std (row_levels k ppf self it)) (items fr)))"
    by (simp add: frs items_def n_def comp_def rl)
  have p: "put r f w1 = w\<lparr>heap := heap w @ [f]\<rparr>" for f
    unfolding r_def w1_def by (rule put_append)
  have "optimize_inventory_levels k ppf data w =
      (if \<exists>i<n. eoq_raises k self (uc i)
       then (Inl ZeroDivisionError, w\<lparr>heap := heap w @ [fr2]\<rparr>)
       else (Inr r, w\<lparr>heap := heap w @ [fr9]\<rparr>))"
    unfolding run p by (rule refl)
  then show ?thesis
    unfolding raises f9 f2 self_def r_def by simp
qed

lemma map_of_with_levels:
  "map_of (columns (with_levels fr ls)) =
     (map_of (columns fr))
       (''lead_time_demand'' \<mapsto> NumCol (map lead_time_demand ls),
        ''lead_time_demand_std'' \<mapsto> NumCol (map lead_time_demand_std ls),
        ''eoq'' \<mapsto> NumCol (map eoq ls),
        ''reorder_point'' \<mapsto> NumCol (map reorder_point ls),
        ''safety_stock'' \<mapsto> NumCol (map safety_stock ls),
        ''optimal_inventory'' \<mapsto> NumCol (map optimal_inventory ls),
        ''annual_holding_cost'' \<mapsto> NumCol (map annual_holding_cost ls),
        ''annual_ordering_cost'' \<mapsto> NumCol (map annual_ordering_cost ls),
        ''total_annual_cost'' \<mapsto> NumCol (map total_annual_cost ls))"
  by (simp add: with_levels_def setitem_def update_conv')

lemma nrows_with_levels: "nrows (with_levels fr ls) = nrows fr"
  by (simp add: with_levels_def nrows_setitem)

lemma with_levels_other:
  "name \<notin> set derived_names \<Longrightarrow>
     map_of (columns (with_levels fr ls)) name = map_of (columns fr) name"
  by (simp add: map_of_with_levels derived_names_def)

lemma with_levels_derived:
  "name \<in> set derived_names \<Longrightarrow> \<exists>xs. has_num (with_levels fr ls) name xs \<and> length xs = length ls"
  by (auto simp add: map_of_with_levels derived_names_def has_num_def)

lemma levels_at_with_levels:
  "i < length ls \<Longrightarrow> levels_at (with_levels fr ls) i = ls ! i"
  by (cases "ls ! i") (simp add: levels_at_def num_col_def map_of_with_levels)




lemma length_items: "length (items fr) = nrows fr"
  by (simp add: items_def)

lemma nth_items: "i < nrows fr \<Longrightarrow> items fr ! i = item_at fr i"
  by (simp add: items_def)

lemma optimize_returns:
  assumes "numeric_input fr" "data < length (heap w)" "heap w ! data = fr"
    "optimize_inventory_levels k ppf data w = (Inr res, w')"
  shows "res = length (heap w)"
    "w' = w\<lparr>heap := heap w @ [with_levels fr (map (row_levels k ppf (self_attrs w)) (items fr))]\<rparr>"
    "\<forall>it \<in> set (items fr). \<not> row_raises k (self_attrs w) it"
  using assms(4) unfolding optimize_run [OF assms(1-3)]
  by (auto split: if_splits)

lemma optimize_result_frame:
  assumes "numeric_input fr" "data < length (heap w)" "heap w ! data = fr"
    "optimize_inventory_levels k ppf data w = (Inr res, w')"
  shows "heap w' ! res = with_levels fr (map (row_levels k ppf (self_attrs w)) (items fr))"
  using optimize_returns(1,2) [OF assms] by simp

lemma optimize_succeeds:
  assumes "numeric_input fr" "data < length (heap w)" "heap w ! data = fr"
    "\<forall>it \<in> set (items fr). \<not> row_raises k (self_attrs w) it"
  shows "optimize_inventory_levels k ppf data w =
    (Inr (length (heap w)),
     w\<lparr>heap := heap w @ [with_levels fr (map (row_levels k ppf (self_attrs w)) (items fr))]\<rparr>)"
  using assms(4) unfolding optimize_run [OF assms(1-3)] by simp

lemma numeric_input_batch: "numeric_input (batch_of x)"
  by (simp add: numeric_input_def wf_frame_def batch_of_def input_names_def)

lemma items_batch:
  "items (batch_of x) =
     [\<lparr> demand_mean = x, demand_std = Fin 200, lead_time_mean = Fin 2,
        lead_time_std = Fin 0.5, unit_cost = Fin 20, ordering_cost = Fin 50 \<rparr>]"
  by (simp add: items_def item_at_def num_col_def batch_of_def)

lemma batch_never_raises:
  "\<forall>it \<in> set (items (batch_of x)). \<not> row_raises k (init None None None) it"
  by (simp add: items_batch row_raises_def init_def fmul_Fin_exact)

lemma optimize_batch:
  "optimize_inventory_levels k ppf 0 (default_world (batch_of x)) =
    (Inr 1, \<lparr> self_attrs = init None None None,
              heap = [batch_of x,
                      with_levels (batch_of x)
                        (map (row_levels k ppf (init None None None)) (items (batch_of x)))] \<rparr>)"
  using optimize_succeeds [of "batch_of x" 0 "default_world (batch_of x)" k ppf]
    numeric_input_batch [of x] batch_never_raises [of x k]
  by (simp add: default_world_def)

lemma levels_batch:
  "levels_at (with_levels (batch_of x) (map f (items (batch_of x)))) 0 =
     f \<lparr> demand_mean = x, demand_std = Fin 200, lead_time_mean = Fin 2,
         lead_time_std = Fin 0.5, unit_cost = Fin 20, ordering_cost = Fin 50 \<rparr>"
  by (simp add: levels_at_with_levels items_batch)


lemma heap_append_last: "heap (w\<lparr>heap := heap w @ [f]\<rparr>) ! length (heap w) = f"
  by simp

lemma same_below_refl: "same_below n w w"
  by (simp add: same_below_def)

lemma same_below_trans: "same_below n w w1 \<Longrightarrow> same_below n w1 w2 \<Longrightarrow> same_below n w w2"
  by (simp add: same_below_def)

lemma same_below_bnd:
  assumes "\<And>w. same_below n w (snd (m w))" "\<And>x w. same_below n w (snd (f x w))"
  shows "same_below n w (snd (bnd m f w))"
proof (cases "m w")
  case (Pair a w1)
  with assms(1) [of w] have 1: "same_below n w w1" by simp
  show ?thesis
  proof (cases a)
    case (Inl e)
    with Pair 1 show ?thesis by (simp add: bnd_def)
  next
    case (Inr x)
    with Pair have "snd (bnd m f w) = snd (f x w1)" by (simp add: bnd_def)
    with same_below_trans [OF 1 assms(2) [of w1 x]] show ?thesis by simp
  qed
qed

lemma same_below_reads:
  "same_below n w (snd (df_getitem r name w))"
  "same_below n w (snd (lift e w))"
  "same_below n w (snd (get_self w))"
  "same_below n w (snd (df_apply_axis1 k r f w))"
  "same_below n w (snd (ret x w))"
  by (simp_all add: df_getitem_def lift_def get_self_def df_apply_axis1_def ret_def same_below_refl)

lemma same_below_setitem: "same_below r w (snd (df_setitem r name c w))"
  by (simp add: df_setitem_def same_below_def)

lemma same_below_assign:
  "same_below r w (snd (assign_lead_time_demand r w))"
  "same_below r w (snd (assign_lead_time_demand_std r w))"
  "same_below r w (snd (assign_eoq k r w))"
  "same_below r w (snd (assign_reorder_point k ppf r w))"
  "same_below r w (snd (assign_safety_stock r w))"
  "same_below r w (snd (assign_optimal_inventory r w))"
  "same_below r w (snd (assign_annual_holding_cost r w))"
  "same_below r w (snd (assign_annual_ordering_cost r w))"
  "same_below r w (snd (assign_total_annual_cost r w))"
  unfolding assign_lead_time_demand_def assign_lead_time_demand_std_def assign_eoq_def
    assign_reorder_point_def assign_safety_stock_def assign_optimal_inventory_def
    assign_annual_holding_cost_def assign_annual_ordering_cost_def assign_total_annual_cost_def
  by (intro same_below_bnd same_below_reads same_below_setitem)+

lemma optimize_same_below:
  assumes "optimize_inventory_levels k ppf data w = (out, w')"
  shows "self_attrs w' = self_attrs w" "length (heap w') = Suc (length (heap w))"
    "take (length (heap w)) (heap w') = heap w"
proof -
  define r where "r = length (heap w)"
  define w1 where "w1 = w\<lparr>heap := heap w @ [heap w ! data]\<rparr>"
  define rest where "rest = (\<lambda>result.
     bnd (assign_lead_time_demand result) (\<lambda>_.
     bnd (assign_lead_time_demand_std result) (\<lambda>_.
     bnd (assign_eoq k result) (\<lambda>_.
     bnd (assign_reorder_point k ppf result) (\<lambda>_.
     bnd (assign_safety_stock result) (\<lambda>_.
     bnd (assign_optimal_inventory result) (\<lambda>_.
     bnd (assign_annual_holding_cost result) (\<lambda>_.
     bnd (assign_annual_ordering_cost result) (\<lambda>_.
     bnd (assign_total_annual_cost result) (\<lambda>_.
     ret result))))))))))"
  have "optimize_inventory_levels k ppf data w = rest r w1"
    by (simp add: optimize_inventory_levels_def rest_def bnd_def df_copy_def r_def w1_def)
  with assms have w': "w' = snd (rest r w1)" by simp
  have "same_below r w1 (snd (rest r w1))"
    unfolding rest_def by (intro same_below_bnd same_below_assign same_below_reads)
  then have s: "same_below r w1 w'" by (simp add: w')
  from s show "self_attrs w' = self_attrs w" by (simp add: same_below_def w1_def)
  from s show "length (heap w') = Suc (length (heap w))" by (simp add: same_below_def w1_def)
  from s show "take (length (heap w)) (heap w') = heap w"
    by (simp add: same_below_def w1_def r_def)
qed

lemma bnd_InrE:
  assumes "bnd m f w = (Inr y, w')"
  obtains x w1 where "m w = (Inr x, w1)" "f x w1 = (Inr y, w')"
  using assms by (auto simp add: bnd_def split: prod.splits sum.splits)

lemma optimize_result_ref:
  assumes "optimize_inventory_levels k ppf data w = (Inr res, w')"
  shows "res = length (heap w)"
  using assms unfolding optimize_inventory_levels_def
  by (elim bnd_InrE) (simp add: ret_def df_copy_def)

lemma old_frames_kept:
  assumes "take n ys = xs" "length xs = n" "i < n"
  shows "ys ! i = xs ! i"
  using assms nth_take [of i n ys] by simp

section \<open>The rows of the result\<close>

lemma optimize_levels:
  assumes "numeric_input fr" "data < length (heap w)" "heap w ! data = fr"
    "\<forall>it \<in> set (items fr). \<not> row_raises k (self_attrs w) it"
  obtains res w' where "optimize_inventory_levels k ppf data w = (Inr res, w')"
    "heap w' ! res = with_levels fr (map (row_levels k ppf (self_attrs w)) (items fr))"
    "\<And>i. i < nrows fr \<Longrightarrow>
        levels_at (heap w' ! res) i = row_levels k ppf (self_attrs w) (item_at fr i)"
proof -
  define ls where "ls = map (row_levels k ppf (self_attrs w)) (items fr)"
  define w' where "w' = w\<lparr>heap := heap w @ [with_levels fr ls]\<rparr>"
  have run: "optimize_inventory_levels k ppf data w = (Inr (length (heap w)), w')"
    unfolding w'_def ls_def by (rule optimize_succeeds [OF assms])
  have at: "heap w' ! length (heap w) = with_levels fr ls"
    unfolding w'_def by (rule heap_append_last)
  have lv: "levels_at (with_levels fr ls) i = row_levels k ppf (self_attrs w) (item_at fr i)"
    if "i < nrows fr" for i
    using that by (simp add: levels_at_with_levels ls_def length_items nth_items)
  show thesis
  proof (rule that [of "length (heap w)" w'])
    show "optimize_inventory_levels k ppf data w = (Inr (length (heap w)), w')" by (rule run)
    show "heap w' ! length (heap w) = with_levels fr (map (row_levels k ppf (self_attrs w)) (items fr))"
      unfolding at ls_def by (rule refl)
    show "levels_at (heap w' ! length (heap w)) i = row_levels k ppf (self_attrs w) (item_at fr i)"
      if "i < nrows fr" for i
      unfolding at using that by (rule lv)
  qed
qed

lemma item_at_batch:
  "item_at (batch_of x) 0 =
     \<lparr> demand_mean = x, demand_std = Fin 200, lead_time_mean = Fin 2,
        lead_time_std = Fin 0.5, unit_cost = Fin 20, ordering_cost = Fin 50 \<rparr>"
  by (simp add: item_at_def num_col_def batch_of_def)

lemma batch_world:
  "numeric_input (batch_of x)" "0 < length (heap (default_world (batch_of x)))"
  "heap (default_world (batch_of x)) ! 0 = batch_of x"
  "\<forall>it \<in> set (items (batch_of x)). \<not> row_raises k (self_attrs (default_world (batch_of x))) it"
  "self_attrs (default_world (batch_of x)) = init None None None"
  by (simp_all add: numeric_input_batch default_world_def batch_never_raises)

lemma nrows_batch: "nrows (batch_of x) = 1"
  by (simp add: batch_of_def)

lemma has_num_with_levels:
  "has_num (with_levels fr ls) ''lead_time_demand'' (map lead_time_demand ls)"
  "has_num (with_levels fr ls) ''lead_time_demand_std'' (map lead_time_demand_std ls)"
  by (simp_all add: has_num_def map_of_with_levels)

lemma row_levels_lead_time:
  "lead_time_demand (row_levels k ppf self it) = fmul (demand_mean it) (lead_time_mean it)"
  "lead_time_demand_std (row_levels k ppf self it) =
     fsqrt (fadd (fmul (fmul (demand_mean it) (demand_mean it))
                       (fmul (lead_time_std it) (lead_time_std it)))
                 (fmul (fmul (lead_time_mean it) (lead_time_mean it))
                       (fmul (demand_std it) (demand_std it))))"
  by (simp_all add: row_levels_def Let_def)








section \<open>The batch operation\<close>




text \<open>
  C10: whatever the input and whatever the outcome, the call leaves the attributes of the
  optimizer and every frame that existed before it as they were, the input among them,
  and creates one frame. When it returns, it returns the new frame; for an input whose
  six input columns hold numbers the new frame has the rows of the input, every column
  of the input that is not one of the nine derived ones unchanged, and the nine derived
  columns.
\<close>

theorem optimize_no_side_effects:
  assumes "optimize_inventory_levels k ppf data w = (out, w')"
  shows "self_attrs w' = self_attrs w
     \<and> length (heap w') = Suc (length (heap w))
     \<and> (\<forall>r < length (heap w). heap w' ! r = heap w ! r)
     \<and> (\<forall>res. out = Inr res \<longrightarrow> res = length (heap w))
     \<and> (\<forall>res. out = Inr res \<and> data < length (heap w) \<and> numeric_input (heap w ! data) \<longrightarrow>
           nrows (heap w' ! res) = nrows (heap w ! data)
         \<and> (\<forall>name. name \<notin> set derived_names \<longrightarrow>
               map_of (columns (heap w' ! res)) name = map_of (columns (heap w ! data)) name)
         \<and> (\<forall>name \<in> set derived_names.
               \<exists>xs. has_num (heap w' ! res) name xs \<and> length xs = nrows (heap w ! data)))"
proof -
  note kept = optimize_same_below [OF assms]
  have a: "\<forall>r < length (heap w). heap w' ! r = heap w ! r"
    using old_frames_kept [OF kept(3) refl] by simp
  have b: "\<forall>res. out = Inr res \<longrightarrow> res = length (heap w)"
    using assms optimize_result_ref by blast
  have c: "nrows (heap w' ! res) = nrows (heap w ! data)
         \<and> (\<forall>name. name \<notin> set derived_names \<longrightarrow>
               map_of (columns (heap w' ! res)) name = map_of (columns (heap w ! data)) name)
         \<and> (\<forall>name \<in> set derived_names.
               \<exists>xs. has_num (heap w' ! res) name xs \<and> length xs = nrows (heap w ! data))"
    if o: "out = Inr res" and d: "data < length (heap w)" and ni: "numeric_input (heap w ! data)"
    for res
  proof -
    define fr where "fr = heap w ! data"
    define ls where "ls = map (row_levels k ppf (self_attrs w)) (items fr)"
    have run: "optimize_inventory_levels k ppf data w = (Inr res, w')"
      using assms o by simp
    have f: "heap w' ! res = with_levels fr ls"
      unfolding ls_def
      by (rule optimize_result_frame [OF _ d _ run]) (simp_all add: fr_def ni)
    have len: "length ls = nrows fr" by (simp add: ls_def length_items)
    have c1: "nrows (with_levels fr ls) = nrows fr" by (rule nrows_with_levels)
    have c2: "\<forall>name. name \<notin> set derived_names \<longrightarrow>
               map_of (columns (with_levels fr ls)) name = map_of (columns fr) name"
      by (simp add: with_levels_other)
    have c3: "\<forall>name \<in> set derived_names.
               \<exists>xs. has_num (with_levels fr ls) name xs \<and> length xs = nrows fr"
      using with_levels_derived [of _ fr ls] len by simp
    from c1 c2 c3 show ?thesis unfolding f fr_def by (intro conjI)
  qed
  from kept(1) kept(2) a b c show ?thesis by blast
qed

theorem optimize_no_side_effects_witness:
  "\<exists>w'. optimize_inventory_levels PyFloat sample_ppf 0 (default_world scenario_e3) = (Inr 1, w')
     \<and> self_attrs w' = init None None None \<and> length (heap w') = 2
     \<and> heap w' ! 0 = scenario_e3
     \<and> map_of (columns (heap w' ! 1)) ''sku_id'' = Some (ObjCol [''SKU-0001''])
     \<and> map_of (columns (heap w' ! 1)) ''demand_mean'' = Some (NumCol [Fin 1000])"
proof -
  define w' where "w' = snd (optimize_inventory_levels PyFloat sample_ppf 0 (default_world scenario_e3))"
  have run: "optimize_inventory_levels PyFloat sample_ppf 0 (default_world scenario_e3) = (Inr 1, w')"
    unfolding w'_def scenario_e3_def optimize_batch by simp
  note t = optimize_no_side_effects [OF run]
  have h: "heap (default_world scenario_e3) ! 0 = scenario_e3"
    "length (heap (default_world scenario_e3)) = 1"
    "self_attrs (default_world scenario_e3) = init None None None"
    by (simp_all add: default_world_def)
  have ni: "numeric_input scenario_e3" unfolding scenario_e3_def by (rule numeric_input_batch)
  have nd: "''sku_id'' \<notin> set derived_names" "''demand_mean'' \<notin> set derived_names"
    by (simp_all add: derived_names_def)
  have cols: "map_of (columns scenario_e3) ''sku_id'' = Some (ObjCol [''SKU-0001''])"
    "map_of (columns scenario_e3) ''demand_mean'' = Some (NumCol [Fin 1000])"
    by (simp_all add: scenario_e3_def batch_of_def)
  from t have 1: "self_attrs w' = init None None None" "length (heap w') = 2"
    by (simp_all add: h)
  from t have 2: "heap w' ! 0 = scenario_e3" by (simp add: h)
  from t have "\<forall>name. name \<notin> set derived_names \<longrightarrow>
      map_of (columns (heap w' ! 1)) name = map_of (columns scenario_e3) name"
    using ni by (simp add: h)
  with nd cols have 3: "map_of (columns (heap w' ! 1)) ''sku_id'' = Some (ObjCol [''SKU-0001''])"
    "map_of (columns (heap w' ! 1)) ''demand_mean'' = Some (NumCol [Fin 1000])"
    by simp_all
  from run 1 2 3 show ?thesis by (intro exI [of _ w'] conjI)
qed

lemma optimize_lead_time_columns:
  assumes "numeric_input fr" "data < length (heap w)" "heap w ! data = fr"
  shows "has_num (heap (snd (optimize_inventory_levels k ppf data w)) ! length (heap w))
           ''lead_time_demand''
           (map (\<lambda>it. fmul (demand_mean it) (lead_time_mean it)) (items fr))"
    "has_num (heap (snd (optimize_inventory_levels k ppf data w)) ! length (heap w))
           ''lead_time_demand_std''
           (map (\<lambda>it. fsqrt (fadd (fmul (fmul (demand_mean it) (demand_mean it))
                                        (fmul (lead_time_std it) (lead_time_std it)))
                                  (fmul (fmul (lead_time_mean it) (lead_time_mean it))
                                        (fmul (demand_std it) (demand_std it))))) (items fr))"
proof -
  define ls where "ls = map (row_levels k ppf (self_attrs w)) (items fr)"
  have m: "map lead_time_demand ls = map (\<lambda>it. fmul (demand_mean it) (lead_time_mean it)) (items fr)"
    "map lead_time_demand_std ls =
       map (\<lambda>it. fsqrt (fadd (fmul (fmul (demand_mean it) (demand_mean it))
                                        (fmul (lead_time_std it) (lead_time_std it)))
                                  (fmul (fmul (lead_time_mean it) (lead_time_mean it))
                                        (fmul (demand_std it) (demand_std it))))) (items fr)"
    by (simp_all add: ls_def comp_def row_levels_lead_time)
  note wl = has_num_with_levels [of fr ls, unfolded m]
  show "has_num (heap (snd (optimize_inventory_levels k ppf data w)) ! length (heap w))
           ''lead_time_demand''
           (map (\<lambda>it. fmul (demand_mean it) (lead_time_mean it)) (items fr))"
    unfolding optimize_run [OF assms] using wl(1)
    by (simp add: ls_def has_num_setitem row_levels_lead_time)
  show "has_num (heap (snd (optimize_inventory_levels k ppf data w)) ! length (heap w))
           ''lead_time_demand_std''
           (map (\<lambda>it. fsqrt (fadd (fmul (fmul (demand_mean it) (demand_mean it))
                                        (fmul (lead_time_std it) (lead_time_std it)))
                                  (fmul (fmul (lead_time_mean it) (lead_time_mean it))
                                        (fmul (demand_std it) (demand_std it))))) (items fr))"
    unfolding optimize_run [OF assms] using wl(2)
    by (simp add: ls_def has_num_setitem row_levels_lead_time)
qed

lemma row_levels_e3:
  "lead_time_demand (row_levels k ppf self
      \<lparr> demand_mean = Fin 1000, demand_std = Fin 200, lead_time_mean = Fin 2,
        lead_time_std = Fin 0.5, unit_cost = Fin 20, ordering_cost = Fin 50 \<rparr>) = Fin 2000"
  "lead_time_demand_std (row_levels k ppf self
      \<lparr> demand_mean = Fin 1000, demand_std = Fin 200, lead_time_mean = Fin 2,
        lead_time_std = Fin 0.5, unit_cost = Fin 20, ordering_cost = Fin 50 \<rparr>)
     = Fin (round64 (sqrt 410000))"
  by (simp_all add: row_levels_lead_time fmul_Fin_exact fadd_Fin_exact)

text \<open>
  C5: for a frame whose six input columns hold numbers, the frame the call creates holds
  the column \<^verbatim>\<open>lead_time_demand\<close>, in every row the product of the demand mean and
  the lead time mean, and the column \<^verbatim>\<open>lead_time_demand_std\<close>, in every row the root
  of the sum of the two products of squares, each operation in binary64; when the call
  returns, it returns that frame. For the item of scenario E3 the two cells are 2000 and
  the binary64 root of 410000, between 640.31 and 640.32.
\<close>

theorem lead_time_demand_columns:
  assumes "numeric_input fr" "data < length (heap w)" "heap w ! data = fr"
  shows "(\<exists>out w'. optimize_inventory_levels k ppf data w = (out, w')
       \<and> (\<forall>res. out = Inr res \<longrightarrow> res = length (heap w))
       \<and> has_num (heap w' ! length (heap w)) ''lead_time_demand''
            (map (\<lambda>it. fmul (demand_mean it) (lead_time_mean it)) (items fr))
       \<and> has_num (heap w' ! length (heap w)) ''lead_time_demand_std''
            (map (\<lambda>it. fsqrt (fadd (fmul (fmul (demand_mean it) (demand_mean it))
                                         (fmul (lead_time_std it) (lead_time_std it)))
                                   (fmul (fmul (lead_time_mean it) (lead_time_mean it))
                                         (fmul (demand_std it) (demand_std it))))) (items fr)))
     \<and> (\<exists>w'. optimize_inventory_levels k ppf 0 (default_world scenario_e3) = (Inr 1, w')
           \<and> lead_time_demand (levels_at (heap w' ! 1) 0) = Fin 2000
           \<and> lead_time_demand_std (levels_at (heap w' ! 1) 0) = Fin (round64 (sqrt 410000)))
     \<and> 640.31 < round64 (sqrt 410000) \<and> round64 (sqrt 410000) < 640.32"
proof -
  define out where "out = fst (optimize_inventory_levels k ppf data w)"
  define w' where "w' = snd (optimize_inventory_levels k ppf data w)"
  have run: "optimize_inventory_levels k ppf data w = (out, w')"
    by (simp add: out_def w'_def)
  have ref: "\<forall>res. out = Inr res \<longrightarrow> res = length (heap w)"
    using run optimize_result_ref by blast
  note cols = optimize_lead_time_columns [OF assms, of k ppf, folded w'_def]
  have first: "\<exists>out w'. optimize_inventory_levels k ppf data w = (out, w')
       \<and> (\<forall>res. out = Inr res \<longrightarrow> res = length (heap w))
       \<and> has_num (heap w' ! length (heap w)) ''lead_time_demand''
            (map (\<lambda>it. fmul (demand_mean it) (lead_time_mean it)) (items fr))
       \<and> has_num (heap w' ! length (heap w)) ''lead_time_demand_std''
            (map (\<lambda>it. fsqrt (fadd (fmul (fmul (demand_mean it) (demand_mean it))
                                         (fmul (lead_time_std it) (lead_time_std it)))
                                   (fmul (fmul (lead_time_mean it) (lead_time_mean it))
                                         (fmul (demand_std it) (demand_std it))))) (items fr))"
    by (rule exI [of _ out], rule exI [of _ w']) (intro conjI run ref cols)
  define w3 where "w3 = \<lparr> self_attrs = init None None None,
              heap = [batch_of (Fin 1000),
                      with_levels (batch_of (Fin 1000))
                        (map (row_levels k ppf (init None None None))
                           (items (batch_of (Fin 1000))))] \<rparr>"
  have run3: "optimize_inventory_levels k ppf 0 (default_world scenario_e3) = (Inr 1, w3)"
    unfolding scenario_e3_def w3_def by (rule optimize_batch)
  have l3: "levels_at (heap w3 ! 1) 0 = row_levels k ppf (init None None None)
      \<lparr> demand_mean = Fin 1000, demand_std = Fin 200, lead_time_mean = Fin 2,
        lead_time_std = Fin 0.5, unit_cost = Fin 20, ordering_cost = Fin 50 \<rparr>"
    unfolding w3_def using levels_batch [of "Fin 1000" "row_levels k ppf (init None None None)"]
    by simp
  have second: "\<exists>w'. optimize_inventory_levels k ppf 0 (default_world scenario_e3) = (Inr 1, w')
           \<and> lead_time_demand (levels_at (heap w' ! 1) 0) = Fin 2000
           \<and> lead_time_demand_std (levels_at (heap w' ! 1) 0) = Fin (round64 (sqrt 410000))"
    by (rule exI [of _ w3]) (intro conjI run3, simp_all only: l3 row_levels_e3)
  have b: "640.31 < round64 (sqrt 410000)" "round64 (sqrt 410000) < 640.32"
    using sqrt_410000 by simp_all
  from first second b show ?thesis by (intro conjI)
qed

theorem lead_time_demand_columns_witness:
  "\<exists>out w'. optimize_inventory_levels NpFloat64 sample_ppf 0
                (default_world (batch_of (Fin 1000))) = (out, w')
     \<and> has_num (heap w' ! 1) ''lead_time_demand'' [Fin 2000]
     \<and> has_num (heap w' ! 1) ''lead_time_demand_std'' [Fin (round64 (sqrt 410000))]"
proof -
  have "\<exists>out w'. optimize_inventory_levels NpFloat64 sample_ppf 0
                (default_world (batch_of (Fin 1000))) = (out, w')
       \<and> (\<forall>res. out = Inr res \<longrightarrow> res = length (heap (default_world (batch_of (Fin 1000)))))
       \<and> has_num (heap w' ! length (heap (default_world (batch_of (Fin 1000)))))
            ''lead_time_demand''
            (map (\<lambda>it. fmul (demand_mean it) (lead_time_mean it)) (items (batch_of (Fin 1000))))
       \<and> has_num (heap w' ! length (heap (default_world (batch_of (Fin 1000)))))
            ''lead_time_demand_std''
            (map (\<lambda>it. fsqrt (fadd (fmul (fmul (demand_mean it) (demand_mean it))
                                         (fmul (lead_time_std it) (lead_time_std it)))
                                   (fmul (fmul (lead_time_mean it) (lead_time_mean it))
                                         (fmul (demand_std it) (demand_std it)))))
               (items (batch_of (Fin 1000))))"
    by (rule lead_time_demand_columns [OF batch_world(1-3), THEN conjunct1])
  then obtain out w' where
    r: "optimize_inventory_levels NpFloat64 sample_ppf 0
                (default_world (batch_of (Fin 1000))) = (out, w')"
    and a: "has_num (heap w' ! length (heap (default_world (batch_of (Fin 1000)))))
            ''lead_time_demand''
            (map (\<lambda>it. fmul (demand_mean it) (lead_time_mean it)) (items (batch_of (Fin 1000))))"
    and b: "has_num (heap w' ! length (heap (default_world (batch_of (Fin 1000)))))
            ''lead_time_demand_std''
            (map (\<lambda>it. fsqrt (fadd (fmul (fmul (demand_mean it) (demand_mean it))
                                         (fmul (lead_time_std it) (lead_time_std it)))
                                   (fmul (fmul (lead_time_mean it) (lead_time_mean it))
                                         (fmul (demand_std it) (demand_std it)))))
               (items (batch_of (Fin 1000))))"
    by (elim exE conjE)
  have len: "length (heap (default_world (batch_of (Fin 1000)))) = 1"
    by (simp add: default_world_def)
  from a have a': "has_num (heap w' ! 1) ''lead_time_demand'' [Fin 2000]"
    by (simp add: len items_batch fmul_Fin_exact)
  from b have b': "has_num (heap w' ! 1) ''lead_time_demand_std'' [Fin (round64 (sqrt 410000))]"
    by (simp add: len items_batch fmul_Fin_exact fadd_Fin_exact)
  show ?thesis
    by (rule exI [of _ out], rule exI [of _ w']) (intro conjI r a' b')
qed

section \<open>An item with no demand\<close>

text \<open>A number that is a zero or not-a-number stays one under the operations.\<close>

lemma zn_fmul: "is_zero a \<or> a = NaN \<Longrightarrow> is_zero (fmul a b) \<or> fmul a b = NaN"
  by (cases a; cases b) (simp_all add: fmul_def signed_zero_def)

lemma zn_fmul2: "is_zero b \<Longrightarrow> is_zero (fmul (Fin 2) b)"
  by (cases b) (simp_all add: fmul_def signed_zero_def)

lemma zn_fdiv: "is_zero a \<or> a = NaN \<Longrightarrow> is_zero (fdiv a b) \<or> fdiv a b = NaN"
  by (cases a; cases b) (simp_all add: fdiv_def signed_zero_def)

lemma zn_fsqrt: "is_zero a \<or> a = NaN \<Longrightarrow> is_zero (fsqrt a) \<or> fsqrt a = NaN"
  by (cases a) auto

lemma fdiv_zero_zn: "is_zero a \<Longrightarrow> is_zero b \<or> b = NaN \<Longrightarrow> fdiv a b = NaN"
  by (cases a; cases b) (simp_all add: fdiv_def)

lemma fmul_NaN [simp]: "fmul NaN b = NaN" "fmul a NaN = NaN"
  by (simp_all add: fmul_def)

lemma fadd_NaN [simp]: "fadd NaN b = NaN" "fadd a NaN = NaN"
  by (simp_all add: fadd_def)

lemma row_levels_zero_demand:
  assumes "is_zero (demand_mean it)"
  shows "annual_ordering_cost (row_levels k ppf self it) = NaN"
    "total_annual_cost (row_levels k ppf self it) = NaN"
    "is_zero (eoq (row_levels k ppf self it)) \<or> eoq (row_levels k ppf self it) = NaN"
proof -
  define q where "q = fsqrt (fdiv (fmul (fmul (Fin 2) (demand_mean it)) (ordering_cost it))
                          (fmul (val (holding_cost_rate self)) (unit_cost it)))"
  have z2: "is_zero (fmul (Fin 2) (demand_mean it))" using assms by (rule zn_fmul2)
  have n: "is_zero (fmul (fmul (Fin 2) (demand_mean it)) (ordering_cost it))
      \<or> fmul (fmul (Fin 2) (demand_mean it)) (ordering_cost it) = NaN"
    by (rule zn_fmul [OF disjI1 [OF z2]])
  have q: "is_zero q \<or> q = NaN" unfolding q_def by (rule zn_fsqrt [OF zn_fdiv [OF n]])
  have d: "fdiv (demand_mean it) q = NaN" by (rule fdiv_zero_zn [OF assms q])
  show "annual_ordering_cost (row_levels k ppf self it) = NaN"
    by (simp add: row_levels_def Let_def q_def [symmetric] d)
  show "total_annual_cost (row_levels k ppf self it) = NaN"
    by (simp add: row_levels_def Let_def q_def [symmetric] d)
  show "is_zero (eoq (row_levels k ppf self it)) \<or> eoq (row_levels k ppf self it) = NaN"
    using q by (simp add: row_levels_def Let_def q_def [symmetric])
qed

lemma row_levels_identities:
  "safety_stock (row_levels k ppf self it) =
     fsub (reorder_point (row_levels k ppf self it)) (lead_time_demand (row_levels k ppf self it))"
  "total_annual_cost (row_levels k ppf self it) =
     fadd (annual_holding_cost (row_levels k ppf self it))
          (annual_ordering_cost (row_levels k ppf self it))"
  by (simp_all add: row_levels_def Let_def)

lemma close_to_self: "0 < eps \<Longrightarrow> close_to eps a a = is_finite a"
  by (cases a) (simp_all add: close_to_def fsub_def fadd_def signed_zero_def)

lemma zero_demand_item: "is_zero (demand_mean (item_at zero_demand_batch 0))"
  by (simp add: zero_demand_batch_def item_at_batch)

text \<open>
  C1, as the code has it: the annual ordering cost of an item with no demand is not 0. The
  economic order quantity of such an item is a zero (or not-a-number), the quotient of the
  demand mean and it is zero over zero, and the annual ordering cost is not-a-number: the
  division is performed, and no override replaces its result.
\<close>

theorem zero_demand_ordering_cost:
  assumes "numeric_input fr" "data < length (heap w)" "heap w ! data = fr"
    "\<forall>it \<in> set (items fr). \<not> row_raises k (self_attrs w) it"
    "i < nrows fr" "is_zero (demand_mean (item_at fr i))"
  shows "\<exists>res w'. optimize_inventory_levels k ppf data w = (Inr res, w')
     \<and> annual_ordering_cost (levels_at (heap w' ! res) i) = NaN
     \<and> \<not> is_zero (annual_ordering_cost (levels_at (heap w' ! res) i))
     \<and> (is_zero (eoq (levels_at (heap w' ! res) i)) \<or> eoq (levels_at (heap w' ! res) i) = NaN)"
proof -
  obtain res w' where run: "optimize_inventory_levels k ppf data w = (Inr res, w')"
    and lv: "\<And>i. i < nrows fr \<Longrightarrow>
        levels_at (heap w' ! res) i = row_levels k ppf (self_attrs w) (item_at fr i)"
    using optimize_levels [OF assms(1-4), where ppf = ppf] by blast
  note z = row_levels_zero_demand [OF assms(6), of k ppf "self_attrs w"]
  have a: "annual_ordering_cost (levels_at (heap w' ! res) i) = NaN"
    unfolding lv [OF assms(5)] by (rule z(1))
  have b: "\<not> is_zero (annual_ordering_cost (levels_at (heap w' ! res) i))"
    unfolding a by simp
  have c: "is_zero (eoq (levels_at (heap w' ! res) i)) \<or> eoq (levels_at (heap w' ! res) i) = NaN"
    unfolding lv [OF assms(5)] by (rule z(3))
  show ?thesis
    by (rule exI [of _ res], rule exI [of _ w']) (intro conjI run a b c)
qed

theorem zero_demand_ordering_cost_witness:
  "\<exists>res w'. optimize_inventory_levels PyFloat sample_ppf 0 (default_world zero_demand_batch)
        = (Inr res, w')
     \<and> annual_ordering_cost (levels_at (heap w' ! res) 0) = NaN
     \<and> \<not> is_zero (annual_ordering_cost (levels_at (heap w' ! res) 0))"
proof -
  have n: "0 < nrows (batch_of (Fin 0))" by (simp add: nrows_batch)
  have "\<exists>res w'. optimize_inventory_levels PyFloat sample_ppf 0 (default_world (batch_of (Fin 0)))
        = (Inr res, w')
     \<and> annual_ordering_cost (levels_at (heap w' ! res) 0) = NaN
     \<and> \<not> is_zero (annual_ordering_cost (levels_at (heap w' ! res) 0))
     \<and> (is_zero (eoq (levels_at (heap w' ! res) 0)) \<or> eoq (levels_at (heap w' ! res) 0) = NaN)"
    by (rule zero_demand_ordering_cost [OF batch_world(1-4) n
          zero_demand_item [unfolded zero_demand_batch_def]])
  then show ?thesis unfolding zero_demand_batch_def by blast
qed

text \<open>
  C6, as the code has it. In every row of the result the safety stock is the difference of
  the reorder point and the lead time demand, and the total annual cost is the sum of the
  two annual costs, by construction. The comparison \<^verbatim>\<open>abs(a - b) < eps\<close> of such a cell
  with the value it was computed from holds exactly when the cell is finite. For an item
  with no demand it fails: the annual ordering cost is not-a-number (C1), so is the total
  annual cost, and every comparison with not-a-number is false.
\<close>

theorem cost_identities:
  assumes "numeric_input fr" "data < length (heap w)" "heap w ! data = fr"
    "\<forall>it \<in> set (items fr). \<not> row_raises k (self_attrs w) it" "0 < eps"
  shows "\<exists>res w'. optimize_inventory_levels k ppf data w = (Inr res, w')
     \<and> (\<forall>i < nrows fr. \<forall>l. l = levels_at (heap w' ! res) i \<longrightarrow>
           safety_stock l = fsub (reorder_point l) (lead_time_demand l)
         \<and> total_annual_cost l = fadd (annual_holding_cost l) (annual_ordering_cost l)
         \<and> close_to eps (safety_stock l) (fsub (reorder_point l) (lead_time_demand l))
             = is_finite (safety_stock l)
         \<and> close_to eps (total_annual_cost l)
               (fadd (annual_holding_cost l) (annual_ordering_cost l))
             = is_finite (total_annual_cost l)
         \<and> (is_zero (demand_mean (item_at fr i)) \<longrightarrow>
               total_annual_cost l = NaN
             \<and> \<not> close_to eps (total_annual_cost l)
                   (fadd (annual_holding_cost l) (annual_ordering_cost l))))"
proof -
  obtain res w' where run: "optimize_inventory_levels k ppf data w = (Inr res, w')"
    and lv: "\<And>i. i < nrows fr \<Longrightarrow>
        levels_at (heap w' ! res) i = row_levels k ppf (self_attrs w) (item_at fr i)"
    using optimize_levels [OF assms(1-4), where ppf = ppf] by blast
  have rows: "safety_stock l = fsub (reorder_point l) (lead_time_demand l)
         \<and> total_annual_cost l = fadd (annual_holding_cost l) (annual_ordering_cost l)
         \<and> close_to eps (safety_stock l) (fsub (reorder_point l) (lead_time_demand l))
             = is_finite (safety_stock l)
         \<and> close_to eps (total_annual_cost l)
               (fadd (annual_holding_cost l) (annual_ordering_cost l))
             = is_finite (total_annual_cost l)
         \<and> (is_zero (demand_mean (item_at fr i)) \<longrightarrow>
               total_annual_cost l = NaN
             \<and> \<not> close_to eps (total_annual_cost l)
                   (fadd (annual_holding_cost l) (annual_ordering_cost l)))"
    if i: "i < nrows fr" and l: "l = levels_at (heap w' ! res) i" for i l
  proof -
    have l': "l = row_levels k ppf (self_attrs w) (item_at fr i)" unfolding l by (rule lv [OF i])
    have s: "safety_stock l = fsub (reorder_point l) (lead_time_demand l)"
      unfolding l' by (rule row_levels_identities(1))
    have t: "total_annual_cost l = fadd (annual_holding_cost l) (annual_ordering_cost l)"
      unfolding l' by (rule row_levels_identities(2))
    have cs: "close_to eps (safety_stock l) (fsub (reorder_point l) (lead_time_demand l))
             = is_finite (safety_stock l)"
      unfolding s [symmetric] by (rule close_to_self [OF assms(5)])
    have ct: "close_to eps (total_annual_cost l)
               (fadd (annual_holding_cost l) (annual_ordering_cost l))
             = is_finite (total_annual_cost l)"
      unfolding t [symmetric] by (rule close_to_self [OF assms(5)])
    have z: "total_annual_cost l = NaN
             \<and> \<not> close_to eps (total_annual_cost l)
                   (fadd (annual_holding_cost l) (annual_ordering_cost l))"
      if "is_zero (demand_mean (item_at fr i))"
    proof -
      have n: "total_annual_cost l = NaN"
        unfolding l' by (rule row_levels_zero_demand(2) [OF that])
      with ct show ?thesis by simp
    qed
    from s t cs ct z show ?thesis by blast
  qed
  show ?thesis
    by (rule exI [of _ res], rule exI [of _ w']) (intro conjI run allI impI rows)
qed

theorem cost_identities_witness:
  "\<exists>res w'. optimize_inventory_levels PyFloat sample_ppf 0 (default_world zero_demand_batch)
        = (Inr res, w')
     \<and> total_annual_cost (levels_at (heap w' ! res) 0) = NaN
     \<and> \<not> close_to (1 / 10 ^ 9) (total_annual_cost (levels_at (heap w' ! res) 0))
           (fadd (annual_holding_cost (levels_at (heap w' ! res) 0))
                 (annual_ordering_cost (levels_at (heap w' ! res) 0)))"
proof -
  have e: "(0::real) < 1 / 10 ^ 9" by simp
  from cost_identities [where fr = "batch_of (Fin 0)" and data = 0
      and w = "default_world (batch_of (Fin 0))" and k = PyFloat and ppf = sample_ppf
      and eps = "1 / 10 ^ 9", OF batch_world(1-4) e]
  obtain res w' where
    run: "optimize_inventory_levels PyFloat sample_ppf 0 (default_world (batch_of (Fin 0)))
        = (Inr res, w')"
    and rows: "\<forall>i < nrows (batch_of (Fin 0)). \<forall>l. l = levels_at (heap w' ! res) i \<longrightarrow>
           safety_stock l = fsub (reorder_point l) (lead_time_demand l)
         \<and> total_annual_cost l = fadd (annual_holding_cost l) (annual_ordering_cost l)
         \<and> close_to (1 / 10 ^ 9) (safety_stock l) (fsub (reorder_point l) (lead_time_demand l))
             = is_finite (safety_stock l)
         \<and> close_to (1 / 10 ^ 9) (total_annual_cost l)
               (fadd (annual_holding_cost l) (annual_ordering_cost l))
             = is_finite (total_annual_cost l)
         \<and> (is_zero (demand_mean (item_at (batch_of (Fin 0)) i)) \<longrightarrow>
               total_annual_cost l = NaN
             \<and> \<not> close_to (1 / 10 ^ 9) (total_annual_cost l)
                   (fadd (annual_holding_cost l) (annual_ordering_cost l)))"
    by (elim exE conjE)
  have z: "is_zero (demand_mean (item_at (batch_of (Fin 0)) 0))"
    by (simp add: item_at_batch)
  have n: "0 < nrows (batch_of (Fin 0))" by (simp add: nrows_batch)
  from rows [rule_format, OF n refl] z
  have "total_annual_cost (levels_at (heap w' ! res) 0) = NaN
     \<and> \<not> close_to (1 / 10 ^ 9) (total_annual_cost (levels_at (heap w' ! res) 0))
           (fadd (annual_holding_cost (levels_at (heap w' ! res) 0))
                 (annual_ordering_cost (levels_at (heap w' ! res) 0)))"
    by blast
  with run show ?thesis unfolding zero_demand_batch_def by blast
qed

end
